theory Spec2Isabelle
  imports Main
begin

section \<open>Python text\<close>

text \<open>
  A Python \<open>str\<close> is a sequence of Unicode code points and \<open>len\<close> counts code points,
  so a string is modelled as the list of its code points. \<open>str\<close> turns an ASCII literal
  of the source into that representation.
\<close>

type_synonym ustr = "nat list"

definition str :: "string \<Rightarrow> ustr" where
  "str s = map of_char s"

text \<open>
  \<open>str.isspace\<close> for one character: the 29 code points that \<open>strip()\<close> and
  \<open>split()\<close> treat as whitespace (U+0009..U+000D, U+001C..U+0020, U+0085, U+00A0,
  U+1680, U+2000..U+200A, U+2028, U+2029, U+202F, U+205F, U+3000).
\<close>

definition isspace :: "nat \<Rightarrow> bool" where
  "isspace c \<longleftrightarrow>
     (9 \<le> c \<and> c \<le> 13) \<or> (28 \<le> c \<and> c \<le> 32) \<or> c = 133 \<or> c = 160 \<or> c = 5760 \<or>
     (8192 \<le> c \<and> c \<le> 8202) \<or> c = 8232 \<or> c = 8233 \<or> c = 8239 \<or> c = 8287 \<or>
     c = 12288"

text \<open>\<open>s.lstrip()\<close>, \<open>s.rstrip()\<close> and \<open>s.strip()\<close> without argument.\<close>

definition lstrip :: "ustr \<Rightarrow> ustr" where
  "lstrip s = dropWhile isspace s"

definition rstrip :: "ustr \<Rightarrow> ustr" where
  "rstrip s = rev (dropWhile isspace (rev s))"

definition strip :: "ustr \<Rightarrow> ustr" where
  "strip s = rstrip (lstrip s)"

text \<open>\<open>s.lstrip(chars)\<close>: drops the leading characters that occur in \<open>chars\<close>.\<close>

definition lstrip_chars :: "ustr \<Rightarrow> ustr \<Rightarrow> ustr" where
  "lstrip_chars s chars = dropWhile (\<lambda>c. c \<in> set chars) s"

text \<open>\<open>s.startswith(p)\<close> and the substring test \<open>p in s\<close>.\<close>

definition startswith :: "ustr \<Rightarrow> ustr \<Rightarrow> bool" where
  "startswith s p \<longleftrightarrow> take (length p) s = p"

primrec str_in :: "ustr \<Rightarrow> ustr \<Rightarrow> bool" where
  "str_in p [] \<longleftrightarrow> p = []"
| "str_in p (c # s) \<longleftrightarrow> startswith (c # s) p \<or> str_in p s"

text \<open>
  \<open>s.split(sep)\<close> for a one-character separator: every occurrence of the separator
  ends a piece, so the result has one piece more than there are separators and is
  never empty.
\<close>

fun split_on :: "nat \<Rightarrow> ustr \<Rightarrow> ustr list" where
  "split_on sep [] = [[]]"
| "split_on sep (c # s) =
     (let r = split_on sep s in if c = sep then [] # r else (c # hd r) # tl r)"

text \<open>\<open>content.split('\n')\<close>.\<close>

definition split_lines :: "ustr \<Rightarrow> ustr list" where
  "split_lines content = split_on 10 content"

text \<open>
  \<open>s.split()\<close> without argument: the maximal runs of non-whitespace characters.
  \<open>tokens cur s\<close> scans \<open>s\<close> with the word read so far in \<open>cur\<close>.
\<close>

fun tokens :: "ustr \<Rightarrow> ustr \<Rightarrow> ustr list" where
  "tokens cur [] = (if cur = [] then [] else [cur])"
| "tokens cur (c # s) =
     (if isspace c then (if cur = [] then tokens [] s else cur # tokens [] s)
      else tokens (cur @ [c]) s)"

definition split_ws :: "ustr \<Rightarrow> ustr list" where
  "split_ws s = tokens [] s"

text \<open>\<open>sep.join(parts)\<close> and \<open>s.replace(a, b)\<close> for single characters.\<close>

fun join :: "ustr \<Rightarrow> ustr list \<Rightarrow> ustr" where
  "join sep [] = []"
| "join sep [x] = x"
| "join sep (x # y # ys) = x @ sep @ join sep (y # ys)"

definition replace_char :: "nat \<Rightarrow> nat \<Rightarrow> ustr \<Rightarrow> ustr" where
  "replace_char a b s = map (\<lambda>c. if c = a then b else c) s"

section \<open>Parsing the agents' output (instagram\_crew.py)\<close>

subsection \<open>\<open>_parse_image_prompts\<close>\<close>

text \<open>The argument of \<open>lstrip\<close>: the digits, \<open>.\<close>, \<open>-\<close>, the bullet U+2022 and the space.\<close>

definition numbering_chars :: ustr where
  "numbering_chars = str ''0123456789.-'' @ [8226] @ str '' ''"

text \<open>The \<open>for line in lines\<close> loop, with the list \<open>prompts\<close> built so far.\<close>

fun collect_prompts :: "ustr list \<Rightarrow> ustr list \<Rightarrow> ustr list" where
  "collect_prompts prompts [] = prompts"
| "collect_prompts prompts (l # lines) =
     (let line = strip l in
      if line \<noteq> [] \<and> \<not> startswith line (str ''#'') \<and> length line > 20 then
        (let clean_line = strip (lstrip_chars line numbering_chars) in
         if clean_line \<noteq> [] then collect_prompts (prompts @ [clean_line]) lines
         else collect_prompts prompts lines)
      else collect_prompts prompts lines)"

definition fallback_prompts :: "ustr \<Rightarrow> ustr list" where
  "fallback_prompts topic =
     [str ''Professional Instagram post about '' @ topic @ str '', modern design, high quality'',
      str ''Engaging social media visual for '' @ topic @ str '', vibrant colors, square format'',
      str ''Creative illustration representing '' @ topic @
        str '', clean background, Instagram ready'']"

definition parse_image_prompts :: "ustr \<Rightarrow> ustr \<Rightarrow> ustr list" where
  "parse_image_prompts image_prompts_result topic =
     (let lines = split_lines image_prompts_result;
          prompts = collect_prompts [] lines;
          prompts = (if length prompts < 3 then prompts @ fallback_prompts topic else prompts)
      in take 3 prompts)"

text \<open>
  What the loop keeps, said without the loop: the stripped lines that are not blank, do
  not start with \<open>#\<close> and are longer than 20 characters, each with its numbering
  removed, those that are empty afterwards left out.
\<close>

definition usable_line :: "ustr \<Rightarrow> bool" where
  "usable_line line \<longleftrightarrow> line \<noteq> [] \<and> \<not> startswith line (str ''#'') \<and> length line > 20"

definition parsed_prompts :: "ustr \<Rightarrow> ustr list" where
  "parsed_prompts text =
     filter (\<lambda>p. p \<noteq> [])
       (map (\<lambda>line. strip (lstrip_chars line numbering_chars))
          (filter usable_line (map strip (split_lines text))))"

subsection \<open>\<open>_extract_hashtags\<close>\<close>

text \<open>The inner loop \<open>for word in words\<close> and the outer loop \<open>for line in lines\<close>.\<close>

fun scan_words :: "ustr list \<Rightarrow> ustr list \<Rightarrow> ustr list" where
  "scan_words hashtags [] = hashtags"
| "scan_words hashtags (word # words) =
     (if startswith word (str ''#'') \<and> length word > 1
      then scan_words (hashtags @ [word]) words
      else scan_words hashtags words)"

fun scan_lines :: "ustr list \<Rightarrow> ustr list \<Rightarrow> ustr list" where
  "scan_lines hashtags [] = hashtags"
| "scan_lines hashtags (line # lines) =
     (if str_in (str ''#'') line then scan_lines (scan_words hashtags (split_ws line)) lines
      else scan_lines hashtags lines)"

definition extract_hashtags :: "ustr \<Rightarrow> ustr list" where
  "extract_hashtags content = take 30 (scan_lines [] (split_lines content))"

definition is_hashtag :: "ustr \<Rightarrow> bool" where
  "is_hashtag word \<longleftrightarrow> startswith word (str ''#'') \<and> length word > 1"

subsection \<open>Exceptions\<close>

text \<open>
  The exceptions that leave a modelled function: a \<open>ValueError\<close> raised by the code,
  with its message; \<open>NotInList\<close>, the \<open>ValueError\<close> of \<open>list.index\<close>; and the
  \<open>UnicodeEncodeError\<close> of \<open>urllib.parse.quote\<close>. A function that can raise returns
  \<open>exn + 'a\<close>, with \<open>Inl\<close> for the exception.
\<close>

datatype exn =
    ValueError ustr
  | NotInList
  | UnicodeEncodeError

text \<open>\<open>xs.index(x)\<close>: the position of the first element equal to \<open>x\<close>.\<close>

fun py_index :: "'a list \<Rightarrow> 'a \<Rightarrow> nat option" where
  "py_index [] x = None"
| "py_index (y # ys) x = (if y = x then Some 0 else map_option Suc (py_index ys x))"

subsection \<open>Upper case\<close>

text \<open>
  \<open>s.upper()\<close> maps every character through Unicode's full upper-case mapping, which
  may give several characters (\<open>'\<ss>'.upper() == 'SS'\<close>). The mapping is a table of the
  Python runtime, not of this program: it is the parameter \<open>up\<close>, the upper-case form
  of each code point. \<open>ascii_upper\<close> is that table on the code points below 128, which
  is all that an ASCII text consults.
\<close>

definition upper :: "(nat \<Rightarrow> ustr) \<Rightarrow> ustr \<Rightarrow> ustr" where
  "upper up s = concat (map up s)"

definition ascii_upper :: "nat \<Rightarrow> ustr" where
  "ascii_upper c = (if 97 \<le> c \<and> c \<le> 122 then [c - 32] else [c])"

subsection \<open>\<open>_extract_short_caption\<close>\<close>

definition short_marker :: "(nat \<Rightarrow> ustr) \<Rightarrow> ustr \<Rightarrow> bool" where
  "short_marker up line \<longleftrightarrow>
     str_in (str ''SHORT CAPTION'') (upper up line) \<or> str_in (str ''SHORT:'') (upper up line)"

definition short_placeholder :: ustr where
  "short_placeholder = str ''Check the full content for short caption''"

text \<open>
  The inner loop \<open>for i in range(idx + 1, len(lines))\<close>, run over the lines after
  position \<open>idx\<close>: the first one that is not blank, stripped; \<open>None\<close> when the loop
  ends without returning.
\<close>

fun first_nonblank :: "ustr list \<Rightarrow> ustr option" where
  "first_nonblank [] = None"
| "first_nonblank (l # ls) = (if strip l \<noteq> [] then Some (strip l) else first_nonblank ls)"

text \<open>
  The outer loop \<open>for line in lines\<close>, with all the lines in \<open>lines\<close> and those still to
  visit in the last argument. A marker line whose inner loop does not return lets the
  outer loop go on.
\<close>

fun short_loop :: "(nat \<Rightarrow> ustr) \<Rightarrow> ustr list \<Rightarrow> ustr list \<Rightarrow> exn + ustr" where
  "short_loop up lines [] = Inr short_placeholder"
| "short_loop up lines (line # rest) =
     (if short_marker up line then
        (case py_index lines line of
           None \<Rightarrow> Inl NotInList
         | Some idx \<Rightarrow>
             (case first_nonblank (drop (idx + 1) lines) of
                Some caption \<Rightarrow> Inr caption
              | None \<Rightarrow> short_loop up lines rest))
      else short_loop up lines rest)"

definition extract_short_caption :: "(nat \<Rightarrow> ustr) \<Rightarrow> ustr \<Rightarrow> exn + ustr" where
  "extract_short_caption up content =
     (let lines = split_lines content in short_loop up lines lines)"

subsection \<open>\<open>_extract_long_caption\<close>\<close>

definition long_marker :: "(nat \<Rightarrow> ustr) \<Rightarrow> ustr \<Rightarrow> bool" where
  "long_marker up line \<longleftrightarrow>
     str_in (str ''LONG CAPTION'') (upper up line) \<or> str_in (str ''LONG:'') (upper up line)"

text \<open>
  The inner loop over the lines after the marker, with \<open>caption_lines\<close> as built so
  far; the second branch is the \<open>break\<close>.
\<close>

fun caption_loop :: "ustr list \<Rightarrow> ustr list \<Rightarrow> ustr list" where
  "caption_loop caption_lines [] = caption_lines"
| "caption_loop caption_lines (l # ls) =
     (if strip l \<noteq> [] \<and> \<not> startswith (strip l) (str ''#'')
      then caption_loop (caption_lines @ [strip l]) ls
      else if startswith (strip l) (str ''#'') \<and> caption_lines \<noteq> [] then caption_lines
      else caption_loop caption_lines ls)"

fun long_loop :: "(nat \<Rightarrow> ustr) \<Rightarrow> ustr \<Rightarrow> ustr list \<Rightarrow> ustr list \<Rightarrow> exn + ustr" where
  "long_loop up content lines [] = Inr content"
| "long_loop up content lines (line # rest) =
     (if long_marker up line then
        (case py_index lines line of
           None \<Rightarrow> Inl NotInList
         | Some idx \<Rightarrow> Inr (join (str ''\<newline>'') (caption_loop [] (drop (idx + 1) lines))))
      else long_loop up content lines rest)"

definition extract_long_caption :: "(nat \<Rightarrow> ustr) \<Rightarrow> ustr \<Rightarrow> exn + ustr" where
  "extract_long_caption up content =
     (let lines = split_lines content in long_loop up content lines lines)"

text \<open>
  The caption as the specification words it: the non-blank lines after the marker,
  up to the first line starting with \<open>#\<close> that comes after at least one collected line.
\<close>

fun spec_caption_lines :: "ustr list \<Rightarrow> ustr list \<Rightarrow> ustr list" where
  "spec_caption_lines collected [] = collected"
| "spec_caption_lines collected (l # ls) =
     (if startswith (strip l) (str ''#'') \<and> collected \<noteq> [] then collected
      else if strip l \<noteq> [] then spec_caption_lines (collected @ [strip l]) ls
      else spec_caption_lines collected ls)"

text \<open>
  The caption that the code collects, said without the loop: of the stripped lines
  after the marker, skip the blank ones and those starting with \<open>#\<close> up to the first
  caption line, then take the lines up to the next one starting with \<open>#\<close>, leaving out
  the blank ones.
\<close>

definition caption_lines_of :: "ustr list \<Rightarrow> ustr list" where
  "caption_lines_of post =
     filter (\<lambda>s. s \<noteq> [])
       (takeWhile (\<lambda>s. \<not> startswith s (str ''#''))
          (dropWhile (\<lambda>s. s = [] \<or> startswith s (str ''#'')) (map strip post)))"

subsection \<open>\<open>_save_result\<close>: the file name\<close>

text \<open>
  \<open>c.isalnum()\<close> is a table of the Python runtime as well, the parameter \<open>alnum\<close>;
  \<open>ascii_isalnum\<close> is that table on the code points below 128.
\<close>

definition ascii_isalnum :: "nat \<Rightarrow> bool" where
  "ascii_isalnum c \<longleftrightarrow> (48 \<le> c \<and> c \<le> 57) \<or> (65 \<le> c \<and> c \<le> 90) \<or> (97 \<le> c \<and> c \<le> 122)"

definition safe_topic :: "(nat \<Rightarrow> bool) \<Rightarrow> ustr \<Rightarrow> ustr" where
  "safe_topic alnum topic =
     (let safe_topic = rstrip (filter (\<lambda>c. alnum c \<or> c \<in> set [32, 45, 95]) topic)
      in replace_char 32 95 safe_topic)"

text \<open>The name of the result file, for the time stamp that \<open>strftime\<close> gives.\<close>

definition result_filename :: "(nat \<Rightarrow> bool) \<Rightarrow> ustr \<Rightarrow> ustr \<Rightarrow> ustr" where
  "result_filename alnum topic timestamp =
     str ''results/instagram_content_'' @ safe_topic alnum topic @ str ''_'' @ timestamp @
     str ''.json''"

section \<open>Image generation (image\_generator.py)\<close>

subsection \<open>JSON values and Python dictionaries\<close>

text \<open>
  The values that \<open>response.json()\<close> returns and that the result dictionaries hold.
  A dictionary is the association list of its items in insertion order; \<open>JNull\<close> is
  \<open>None\<close>; \<open>JFloat m e\<close> is the float with the decimal literal \<open>m\<close> times ten to the
  \<open>e\<close>, so \<open>7.5\<close> is \<open>JFloat 75 (- 1)\<close> (the code never computes with a float).
\<close>

datatype json =
    JNull
  | JBool bool
  | JInt int
  | JFloat int int
  | JStr ustr
  | JList "json list"
  | JObj "(ustr \<times> json) list"

text \<open>The name of a value's type, as Python's error messages print it.\<close>

fun type_name :: "json \<Rightarrow> ustr" where
  "type_name JNull = str ''NoneType''"
| "type_name (JBool b) = str ''bool''"
| "type_name (JInt i) = str ''int''"
| "type_name (JFloat m e) = str ''float''"
| "type_name (JStr s) = str ''str''"
| "type_name (JList xs) = str ''list''"
| "type_name (JObj kvs) = str ''dict''"

text \<open>
  Inside a \<open>try\<close> block whose handler is \<open>except Exception as e\<close>, only \<open>str(e)\<close> is
  read: there an exception is its message, and a step that can raise returns
  \<open>ustr + 'a\<close>.

  \<open>d.get(key, dflt)\<close>: only a dictionary has the method; any other value raises
  \<open>AttributeError\<close>. The code point 39 is the single quote.
\<close>

fun py_get :: "json \<Rightarrow> ustr \<Rightarrow> json \<Rightarrow> ustr + json" where
  "py_get (JObj kvs) key dflt =
     Inr (case map_of kvs key of Some v \<Rightarrow> v | None \<Rightarrow> dflt)"
| "py_get v key dflt =
     Inl ([39] @ type_name v @ [39] @ str '' object has no attribute '' @ [39] @ str ''get'' @
          [39])"

text \<open>
  The elements that \<open>for x in v\<close> (and \<open>enumerate(v)\<close>) visits: those of a list, the
  characters of a string, the keys of a dictionary; any other value raises \<open>TypeError\<close>.
\<close>

fun py_iter :: "json \<Rightarrow> ustr + json list" where
  "py_iter (JList xs) = Inr xs"
| "py_iter (JStr s) = Inr (map (\<lambda>c. JStr [c]) s)"
| "py_iter (JObj kvs) = Inr (map (\<lambda>kv. JStr (fst kv)) kvs)"
| "py_iter v = Inl ([39] @ type_name v @ [39] @ str '' object is not iterable'')"

subsection \<open>The outside world\<close>

text \<open>
  An HTTP POST as \<open>requests.post(url, headers=headers, json=payload)\<close> sends it.
\<close>

record http_request =
  req_url :: ustr
  req_headers :: "(ustr \<times> json) list"
  req_json :: json

text \<open>
  The state that the calls change: the POST requests sent so far, in order, and the
  number of random numbers drawn.
\<close>

record world =
  posts :: "http_request list"
  draws :: nat

text \<open>
  The network answers the \<open>k\<close>-th POST (counted from 0) either with an exception of
  message \<open>msg\<close>, \<open>Inl msg\<close>, raised by \<open>requests.post\<close>, \<open>raise_for_status\<close> or
  \<open>response.json\<close>, or with the decoded body, \<open>Inr data\<close>. It is any function: nothing
  is assumed about the services.
\<close>

type_synonym network = "nat \<Rightarrow> http_request \<Rightarrow> ustr + json"

definition http_post :: "network \<Rightarrow> http_request \<Rightarrow> world \<Rightarrow> (ustr + json) \<times> world" where
  "http_post net req w = (net (length (posts w)) req, w\<lparr>posts := posts w @ [req]\<rparr>)"

text \<open>
  \<open>random.randint(a, b)\<close> is \<open>a + randbelow(b - a + 1)\<close>; the generator is the stream
  \<open>rng\<close> of its raw outputs, reduced to the range asked for.
\<close>

definition randint :: "(nat \<Rightarrow> nat) \<Rightarrow> int \<Rightarrow> int \<Rightarrow> world \<Rightarrow> int \<times> world" where
  "randint rng a b w = (a + int (rng (draws w) mod nat (b - a + 1)), w\<lparr>draws := draws w + 1\<rparr>)"

subsection \<open>Formatting and URL quoting\<close>

text \<open>The decimal digits of a number, and \<open>str(i)\<close> for an integer, as an f-string prints it.\<close>

function digits :: "nat \<Rightarrow> ustr" where
  "digits n = (if n < 10 then [48 + n] else digits (n div 10) @ [48 + n mod 10])"
  by pat_completeness auto
termination
  by (relation "measure id") auto

declare digits.simps [simp del]

definition str_of_int :: "int \<Rightarrow> ustr" where
  "str_of_int i = (if i < 0 then 45 # digits (nat (- i)) else digits (nat i))"

text \<open>An f-string prints \<open>None\<close> as \<open>None\<close>.\<close>

fun format_opt :: "ustr option \<Rightarrow> ustr" where
  "format_opt None = str ''None''"
| "format_opt (Some s) = s"

text \<open>
  \<open>s.encode('utf-8')\<close> with strict error handling: one to four bytes for a code point;
  a surrogate (U+D800..U+DFFF) cannot be encoded and raises \<open>UnicodeEncodeError\<close>.
  Python's strings hold no code point from U+110000 on.
\<close>

definition utf8_char :: "nat \<Rightarrow> nat list option" where
  "utf8_char c =
     (if c < 128 then Some [c]
      else if c < 2048 then Some [192 + c div 64, 128 + c mod 64]
      else if 55296 \<le> c \<and> c \<le> 57343 then None
      else if c < 65536 then Some [224 + c div 4096, 128 + (c div 64) mod 64, 128 + c mod 64]
      else if c < 1114112 then
        Some [240 + c div 262144, 128 + (c div 4096) mod 64, 128 + (c div 64) mod 64,
              128 + c mod 64]
      else None)"

fun utf8_encode :: "ustr \<Rightarrow> exn + nat list" where
  "utf8_encode [] = Inr []"
| "utf8_encode (c # s) =
     (case utf8_char c of
        None \<Rightarrow> Inl UnicodeEncodeError
      | Some bs \<Rightarrow> (case utf8_encode s of Inl e \<Rightarrow> Inl e | Inr rest \<Rightarrow> Inr (bs @ rest)))"

text \<open>
  \<open>urllib.parse.quote(s)\<close> with its defaults: the bytes of the UTF-8 encoding, the
  letters, digits, \<open>_.-~\<close> and the safe character \<open>/\<close> kept, every other byte written
  \<open>%XX\<close> with upper-case hexadecimal digits.
\<close>

definition hex_digit :: "nat \<Rightarrow> nat" where
  "hex_digit d = (if d < 10 then 48 + d else 55 + d)"

definition always_safe :: "nat \<Rightarrow> bool" where
  "always_safe b \<longleftrightarrow>
     (65 \<le> b \<and> b \<le> 90) \<or> (97 \<le> b \<and> b \<le> 122) \<or> (48 \<le> b \<and> b \<le> 57) \<or>
     b = 95 \<or> b = 46 \<or> b = 45 \<or> b = 126"

definition quote_byte :: "nat \<Rightarrow> ustr" where
  "quote_byte b =
     (if always_safe b \<or> b = 47 then [b] else [37, hex_digit (b div 16), hex_digit (b mod 16)])"

definition quote :: "ustr \<Rightarrow> exn + ustr" where
  "quote s = (case utf8_encode s of Inl e \<Rightarrow> Inl e | Inr bs \<Rightarrow> Inr (concat (map quote_byte bs)))"

text \<open>A string that \<open>quote\<close> accepts: Unicode text without surrogate code points.\<close>

definition encodable :: "ustr \<Rightarrow> bool" where
  "encodable s \<longleftrightarrow> list_all (\<lambda>c. c < 55296 \<or> (57343 < c \<and> c < 1114112)) s"

subsection \<open>Configuration and construction\<close>

text \<open>
  The constants that the module imports from \<open>config\<close>, which is not among the
  sources: they are parameters. A key is a string, or \<open>None\<close> when it is not set.
\<close>

record config =
  NANO_BANANA_API_KEY :: "ustr option"
  SEGMIND_API_KEY :: "ustr option"
  STABILITY_API_KEY :: "ustr option"
  IMAGE_GENERATION_API :: ustr

record image_generator =
  api_type :: ustr
  api_key :: "ustr option"

text \<open>
  \<open>_get_api_key\<close>, for the \<open>api_type\<close> that \<open>__init__\<close> has just stored, here \<open>kind\<close>.
\<close>

definition get_api_key :: "config \<Rightarrow> ustr \<Rightarrow> exn + ustr option" where
  "get_api_key cfg kind =
     (if kind = str ''nano_banana'' then Inr (NANO_BANANA_API_KEY cfg)
      else if kind = str ''segmind'' then Inr (SEGMIND_API_KEY cfg)
      else if kind = str ''stability'' then Inr (STABILITY_API_KEY cfg)
      else if kind = str ''pollinations'' then Inr (Some (str ''''))
      else Inl (ValueError (str ''Unsupported API type: '' @ kind)))"

text \<open>\<open>ImageGenerator(api_type)\<close>: the object, or the exception that leaves \<open>__init__\<close>.\<close>

definition new_image_generator :: "config \<Rightarrow> ustr \<Rightarrow> exn + image_generator" where
  "new_image_generator cfg kind =
     (case get_api_key cfg kind of
        Inl e \<Rightarrow> Inl e
      | Inr key \<Rightarrow> Inr \<lparr>api_type = kind, api_key = key\<rparr>)"

subsection \<open>\<open>_generate_pollinations\<close>\<close>

definition pollinations_url :: "ustr \<Rightarrow> int \<Rightarrow> ustr" where
  "pollinations_url quoted seed =
     str ''https://image.pollinations.ai/prompt/'' @ quoted @
     str ''?width=1024&height=1024&enhance=true&seed='' @ str_of_int seed"

definition pollinations_image :: "ustr \<Rightarrow> ustr \<Rightarrow> json" where
  "pollinations_image prompt url =
     JObj [(str ''prompt'', JStr prompt), (str ''url'', JStr url),
           (str ''api'', JStr (str ''pollinations''))]"

text \<open>
  The inner loop \<open>for _ in range(max(1, num_images))\<close>, with the number of rounds left.
  An exception of \<open>quote\<close> leaves the function, after the seed has been drawn.
\<close>

fun seed_loop ::
  "(nat \<Rightarrow> nat) \<Rightarrow> ustr \<Rightarrow> nat \<Rightarrow> json list \<Rightarrow> world \<Rightarrow> (exn + json list) \<times> world" where
  "seed_loop rng prompt 0 images w = (Inr images, w)"
| "seed_loop rng prompt (Suc k) images w =
     (case randint rng 1 10000000 w of
        (seed, w') \<Rightarrow>
          (case quote prompt of
             Inl e \<Rightarrow> (Inl e, w')
           | Inr quoted \<Rightarrow>
               seed_loop rng prompt k
                 (images @ [pollinations_image prompt (pollinations_url quoted seed)]) w'))"

text \<open>The outer loop \<open>for prompt in prompts\<close>.\<close>

fun pollinations_loop ::
  "(nat \<Rightarrow> nat) \<Rightarrow> int \<Rightarrow> ustr list \<Rightarrow> json list \<Rightarrow> world \<Rightarrow> (exn + json list) \<times> world" where
  "pollinations_loop rng num_images [] images w = (Inr images, w)"
| "pollinations_loop rng num_images (prompt # prompts) images w =
     (case seed_loop rng prompt (nat (max 1 num_images)) images w of
        (Inl e, w') \<Rightarrow> (Inl e, w')
      | (Inr images', w') \<Rightarrow> pollinations_loop rng num_images prompts images' w')"

definition generate_pollinations ::
  "(nat \<Rightarrow> nat) \<Rightarrow> ustr list \<Rightarrow> int \<Rightarrow> world \<Rightarrow> (exn + json list) \<times> world" where
  "generate_pollinations rng prompts num_images w = pollinations_loop rng num_images prompts [] w"

subsection \<open>The generators that call a service\<close>

text \<open>The dictionary that each \<open>except\<close> handler appends.\<close>

definition error_image :: "ustr \<Rightarrow> ustr \<Rightarrow> ustr \<Rightarrow> json" where
  "error_image api prompt msg =
     JObj [(str ''prompt'', JStr prompt), (str ''url'', JNull), (str ''error'', JStr msg),
           (str ''api'', JStr api)]"

text \<open>
  \<open>_generate_nano_banana\<close>, \<open>_generate_segmind\<close> and \<open>_generate_stability\<close> have one
  shape: for each prompt, inside a \<open>try\<close>, build the request, post it, and append an
  image for every item of the answer; the handler appends the error dictionary.
  \<open>try_prompt\<close> is one round of that loop for the request \<open>req\<close> and the statements
  \<open>body\<close> that follow \<open>data = response.json()\<close>. The list \<open>images\<close> is changed in
  place, so what \<open>body\<close> has appended before it raises stays.
\<close>

type_synonym response_body = "ustr \<Rightarrow> json list \<Rightarrow> json \<Rightarrow> json list \<times> ustr option"

definition try_prompt ::
  "network \<Rightarrow> ustr \<Rightarrow> (ustr \<Rightarrow> http_request) \<Rightarrow> response_body \<Rightarrow> ustr \<Rightarrow> json list \<Rightarrow> world \<Rightarrow>
     json list \<times> world" where
  "try_prompt net api req body prompt images w =
     (case http_post net (req prompt) w of
        (Inl msg, w') \<Rightarrow> (images @ [error_image api prompt msg], w')
      | (Inr data, w') \<Rightarrow>
          (case body prompt images data of
             (images', None) \<Rightarrow> (images', w')
           | (images', Some msg) \<Rightarrow> (images' @ [error_image api prompt msg], w')))"

fun prompt_loop ::
  "network \<Rightarrow> ustr \<Rightarrow> (ustr \<Rightarrow> http_request) \<Rightarrow> response_body \<Rightarrow> ustr list \<Rightarrow> json list \<Rightarrow> world \<Rightarrow>
     json list \<times> world" where
  "prompt_loop net api req body [] images w = (images, w)"
| "prompt_loop net api req body (prompt # prompts) images w =
     (case try_prompt net api req body prompt images w of
        (images', w') \<Rightarrow> prompt_loop net api req body prompts images' w')"

text \<open>
  The loop \<open>for img_data in items\<close> of Nano Banana and Stability AI, which append
  \<open>img_data.get(field)\<close> under the key \<open>field\<close>; an item that is no dictionary raises.
\<close>

fun append_got :: "ustr \<Rightarrow> ustr \<Rightarrow> ustr \<Rightarrow> json list \<Rightarrow> json list \<Rightarrow> json list \<times> ustr option" where
  "append_got api field prompt images [] = (images, None)"
| "append_got api field prompt images (img_data # items) =
     (case py_get img_data field JNull of
        Inl msg \<Rightarrow> (images, Some msg)
      | Inr v \<Rightarrow>
          append_got api field prompt
            (images @ [JObj [(str ''prompt'', JStr prompt), (field, v), (str ''api'', JStr api)]])
            items)"

text \<open>The loop of Segmind, which appends each item itself under \<open>base64\<close>.\<close>

definition append_items :: "ustr \<Rightarrow> ustr \<Rightarrow> json list \<Rightarrow> json list \<Rightarrow> json list" where
  "append_items api prompt images items =
     images @
     map (\<lambda>img_b64. JObj [(str ''prompt'', JStr prompt), (str ''base64'', img_b64),
                         (str ''api'', JStr api)]) items"

text \<open>Nano Banana: the request, and the statements after \<open>data = response.json()\<close>.\<close>

definition nano_banana_request :: "ustr option \<Rightarrow> int \<Rightarrow> ustr \<Rightarrow> http_request" where
  "nano_banana_request key num_images prompt =
     \<lparr>req_url = str ''https://api.nanobanana.ai/v1/images/generations'',
      req_headers =
        [(str ''Authorization'', JStr (str ''Bearer '' @ format_opt key)),
         (str ''Content-Type'', JStr (str ''application/json''))],
      req_json =
        JObj [(str ''model'', JStr (str ''nano-banana-v1'')), (str ''prompt'', JStr prompt),
              (str ''n'', JInt num_images), (str ''size'', JStr (str ''1024x1024'')),
              (str ''quality'', JStr (str ''hd''))]\<rparr>"

definition nano_banana_body :: response_body where
  "nano_banana_body prompt images data =
     (case py_get data (str ''data'') (JList []) of
        Inl msg \<Rightarrow> (images, Some msg)
      | Inr v \<Rightarrow>
          (case py_iter v of
             Inl msg \<Rightarrow> (images, Some msg)
           | Inr items \<Rightarrow> append_got (str ''nano_banana'') (str ''url'') prompt images items))"

definition generate_nano_banana ::
  "network \<Rightarrow> ustr option \<Rightarrow> ustr list \<Rightarrow> int \<Rightarrow> world \<Rightarrow> json list \<times> world" where
  "generate_nano_banana net key prompts num_images w =
     prompt_loop net (str ''nano_banana'') (nano_banana_request key num_images)
       nano_banana_body prompts [] w"

text \<open>Segmind. A key that is \<open>None\<close> is passed on as it is in the header.\<close>

definition segmind_request :: "ustr option \<Rightarrow> int \<Rightarrow> ustr \<Rightarrow> http_request" where
  "segmind_request key num_images prompt =
     \<lparr>req_url = str ''https://api.segmind.com/v1/sdxl1.0-txt2img'',
      req_headers =
        [(str ''x-api-key'', (case key of None \<Rightarrow> JNull | Some k \<Rightarrow> JStr k)),
         (str ''Content-Type'', JStr (str ''application/json''))],
      req_json =
        JObj [(str ''prompt'', JStr prompt), (str ''num_inference_steps'', JInt 20),
              (str ''guidance_scale'', JFloat 75 (- 1)), (str ''width'', JInt 1024),
              (str ''height'', JInt 1024), (str ''num_images'', JInt num_images)]\<rparr>"

definition segmind_body :: response_body where
  "segmind_body prompt images data =
     (case py_get data (str ''images'') (JList []) of
        Inl msg \<Rightarrow> (images, Some msg)
      | Inr v \<Rightarrow>
          (case py_iter v of
             Inl msg \<Rightarrow> (images, Some msg)
           | Inr items \<Rightarrow> (append_items (str ''segmind'') prompt images items, None)))"

definition generate_segmind ::
  "network \<Rightarrow> ustr option \<Rightarrow> ustr list \<Rightarrow> int \<Rightarrow> world \<Rightarrow> json list \<times> world" where
  "generate_segmind net key prompts num_images w =
     prompt_loop net (str ''segmind'') (segmind_request key num_images) segmind_body prompts [] w"

text \<open>Stability AI.\<close>

definition stability_request :: "ustr option \<Rightarrow> int \<Rightarrow> ustr \<Rightarrow> http_request" where
  "stability_request key num_images prompt =
     \<lparr>req_url =
        str ''https://api.stability.ai/v1/generation/stable-diffusion-xl-1024-v1-0/text-to-image'',
      req_headers =
        [(str ''Authorization'', JStr (str ''Bearer '' @ format_opt key)),
         (str ''Content-Type'', JStr (str ''application/json''))],
      req_json =
        JObj [(str ''text_prompts'', JList [JObj [(str ''text'', JStr prompt)]]),
              (str ''cfg_scale'', JInt 7), (str ''height'', JInt 1024),
              (str ''width'', JInt 1024), (str ''samples'', JInt num_images),
              (str ''steps'', JInt 30)]\<rparr>"

definition stability_body :: response_body where
  "stability_body prompt images data =
     (case py_get data (str ''artifacts'') (JList []) of
        Inl msg \<Rightarrow> (images, Some msg)
      | Inr v \<Rightarrow>
          (case py_iter v of
             Inl msg \<Rightarrow> (images, Some msg)
           | Inr items \<Rightarrow> append_got (str ''stability'') (str ''base64'') prompt images items))"

definition generate_stability ::
  "network \<Rightarrow> ustr option \<Rightarrow> ustr list \<Rightarrow> int \<Rightarrow> world \<Rightarrow> json list \<times> world" where
  "generate_stability net key prompts num_images w =
     prompt_loop net (str ''stability'') (stability_request key num_images) stability_body
       prompts [] w"

subsection \<open>\<open>generate_images\<close>\<close>

definition generate_images ::
  "network \<Rightarrow> (nat \<Rightarrow> nat) \<Rightarrow> image_generator \<Rightarrow> ustr list \<Rightarrow> int \<Rightarrow> world \<Rightarrow>
     (exn + json list) \<times> world" where
  "generate_images net rng self prompts num_images w =
     (if api_type self = str ''nano_banana'' then
        (case generate_nano_banana net (api_key self) prompts num_images w of
           (images, w') \<Rightarrow> (Inr images, w'))
      else if api_type self = str ''segmind'' then
        (case generate_segmind net (api_key self) prompts num_images w of
           (images, w') \<Rightarrow> (Inr images, w'))
      else if api_type self = str ''stability'' then
        (case generate_stability net (api_key self) prompts num_images w of
           (images, w') \<Rightarrow> (Inr images, w'))
      else if api_type self = str ''pollinations'' then
        generate_pollinations rng prompts num_images w
      else (Inl (ValueError (str ''Unsupported API type: '' @ api_type self)), w))"

text \<open>
  The request that a key-based generator sends for one prompt, and the name it writes
  into its results.
\<close>

definition request_of :: "image_generator \<Rightarrow> int \<Rightarrow> ustr \<Rightarrow> http_request" where
  "request_of self num_images =
     (if api_type self = str ''nano_banana'' then nano_banana_request (api_key self) num_images
      else if api_type self = str ''segmind'' then segmind_request (api_key self) num_images
      else stability_request (api_key self) num_images)"

definition key_based :: "image_generator \<Rightarrow> bool" where
  "key_based self \<longleftrightarrow>
     api_type self = str ''nano_banana'' \<or> api_type self = str ''segmind'' \<or>
     api_type self = str ''stability''"

text \<open>
  The statements after \<open>data = response.json()\<close> of the generator that \<open>self\<close>
  selects.
\<close>

definition body_of :: "image_generator \<Rightarrow> response_body" where
  "body_of self =
     (if api_type self = str ''nano_banana'' then nano_banana_body
      else if api_type self = str ''segmind'' then segmind_body
      else stability_body)"

subsection \<open>Notions used in the proofs\<close>


text \<open>The seed that the draw number \<open>d\<close> of the generator gives.\<close>

definition seed_at :: "(nat \<Rightarrow> nat) \<Rightarrow> nat \<Rightarrow> int" where
  "seed_at rng d = 1 + int (rng d mod 10000000)"

section \<open>Properties of the text functions\<close>

lemma str_hash [simp]: "str ''#'' = [35]"
  by (simp add: str_def)

lemma startswith_hash: "startswith s [35] \<longleftrightarrow> (\<exists>t. s = 35 # t)"
  by (cases s) (auto simp: startswith_def)

lemma collect_prompts_acc:
  "collect_prompts acc lines = acc @ collect_prompts [] lines"
proof (induction lines arbitrary: acc)
  case Nil
  show ?case by simp
next
  case (Cons l lines)
  show ?case
    using Cons.IH [of "acc @ [strip (lstrip_chars (strip l) numbering_chars)]"]
      Cons.IH [of "[strip (lstrip_chars (strip l) numbering_chars)]"] Cons.IH [of acc]
    by (simp add: Let_def)
qed

lemma collect_prompts_filter:
  "collect_prompts [] lines =
     filter (\<lambda>p. p \<noteq> [])
       (map (\<lambda>line. strip (lstrip_chars line numbering_chars))
          (filter usable_line (map strip lines)))"
proof (induction lines)
  case Nil
  show ?case by simp
next
  case (Cons l lines)
  show ?case
    using Cons.IH collect_prompts_acc [of "[strip (lstrip_chars (strip l) numbering_chars)]" lines]
    by (simp add: Let_def usable_line_def)
qed

lemma collect_prompts_parsed:
  "collect_prompts [] (split_lines text) = parsed_prompts text"
  by (simp add: collect_prompts_filter parsed_prompts_def)

text \<open>
  C3. For every text and topic, \<open>_parse_image_prompts\<close> returns exactly three prompts:
  when the filtering keeps fewer than three, the kept prompts followed by as many
  topic fallbacks as are missing; otherwise the first three kept prompts.
\<close>

theorem parse_image_prompts_exactly_three:
  "length (parse_image_prompts text topic) = 3 \<and>
   parse_image_prompts text topic =
     (if length (parsed_prompts text) < 3
      then parsed_prompts text @ take (3 - length (parsed_prompts text)) (fallback_prompts topic)
      else take 3 (parsed_prompts text))"
  by (simp add: parse_image_prompts_def Let_def collect_prompts_parsed fallback_prompts_def)

theorem parse_image_prompts_exactly_three_witness:
  "parse_image_prompts (str ''1. A bright sunrise over a calm mountain lake\<newline># heading\<newline>too short'')
       (str ''AI'') =
     [str ''A bright sunrise over a calm mountain lake'',
      str ''Professional Instagram post about AI, modern design, high quality'',
      str ''Engaging social media visual for AI, vibrant colors, square format'']"
  using parse_image_prompts_exactly_three
    [of "str ''1. A bright sunrise over a calm mountain lake\<newline># heading\<newline>too short''" "str ''AI''"]
  by (simp add: parsed_prompts_def split_lines_def usable_line_def strip_def lstrip_def
      rstrip_def lstrip_chars_def numbering_chars_def fallback_prompts_def startswith_def
      isspace_def str_def)

lemma scan_words_filter: "scan_words acc ws = acc @ filter is_hashtag ws"
  by (induction ws arbitrary: acc) (simp_all add: is_hashtag_def)

lemma str_in_hash: "str_in [35] s \<longleftrightarrow> 35 \<in> set s"
  by (induction s) (auto simp: startswith_def)

lemma tokens_chars: "w \<in> set (tokens cur s) \<Longrightarrow> set w \<subseteq> set cur \<union> set s"
proof (induction s arbitrary: cur)
  case Nil
  then show ?case by (simp split: if_splits)
next
  case (Cons c s)
  show ?case
  proof (cases "isspace c")
    case True
    with Cons.prems have "w = cur \<or> w \<in> set (tokens [] s)"
      by (auto split: if_splits)
    then show ?thesis
      using Cons.IH [of "[]"] by auto
  next
    case False
    with Cons.prems have "w \<in> set (tokens (cur @ [c]) s)"
      by simp
    then show ?thesis
      using Cons.IH [of "cur @ [c]"] by auto
  qed
qed

lemma no_hash_no_hashtag:
  assumes "\<not> str_in [35] line"
  shows "filter is_hashtag (split_ws line) = []"
proof -
  have "\<not> is_hashtag w" if "w \<in> set (split_ws line)" for w
  proof
    assume "is_hashtag w"
    then have "35 \<in> set w"
      by (auto simp: is_hashtag_def startswith_hash)
    moreover have "set w \<subseteq> set line"
      using that tokens_chars [of w "[]" line] by (simp add: split_ws_def)
    ultimately show False
      using assms by (auto simp: str_in_hash)
  qed
  then show ?thesis
    by (simp add: filter_empty_conv)
qed

lemma scan_lines_filter:
  "scan_lines acc lines = acc @ filter is_hashtag (concat (map split_ws lines))"
  by (induction lines arbitrary: acc) (simp_all add: scan_words_filter no_hash_no_hashtag)

text \<open>
  C4. For every text, \<open>_extract_hashtags\<close> returns at most 30 entries, every entry
  starts with \<open>#\<close> and is longer than one character, and the entries are the
  whitespace-separated words of the lines that start with \<open>#\<close> (and are longer than
  one character), in their order, cut to the first 30.
\<close>

theorem extract_hashtags_spec:
  "length (extract_hashtags content) \<le> 30 \<and>
   (\<forall>h \<in> set (extract_hashtags content). startswith h (str ''#'') \<and> length h > 1) \<and>
   extract_hashtags content =
     take 30 (filter (\<lambda>word. startswith word (str ''#'') \<and> length word > 1)
       (concat (map split_ws (split_lines content))))"
proof -
  define ws where "ws = concat (map split_ws (split_lines content))"
  have eq: "extract_hashtags content = take 30 (filter is_hashtag ws)"
    by (simp add: extract_hashtags_def scan_lines_filter ws_def)
  have len: "length (extract_hashtags content) \<le> 30"
    unfolding eq by simp
  have "is_hashtag h" if "h \<in> set (extract_hashtags content)" for h
  proof -
    from that have "h \<in> set (filter is_hashtag ws)"
      unfolding eq by (rule in_set_takeD)
    then show ?thesis by simp
  qed
  then have all: "\<forall>h \<in> set (extract_hashtags content). startswith h (str ''#'') \<and> length h > 1"
    unfolding is_hashtag_def by blast
  have "is_hashtag = (\<lambda>word. startswith word (str ''#'') \<and> length word > 1)"
    by (rule ext) (simp only: is_hashtag_def)
  with eq have spec: "extract_hashtags content =
     take 30 (filter (\<lambda>word. startswith word (str ''#'') \<and> length word > 1)
       (concat (map split_ws (split_lines content))))"
    unfolding ws_def by simp
  from len all spec show ?thesis by (intro conjI)
qed

theorem extract_hashtags_spec_witness:
  "extract_hashtags (str ''Great post #ai #\<newline>no tags here\<newline>  #coding#fun x#y'') =
     [str ''#ai'', str ''#coding#fun''] \<and>
   length (extract_hashtags (str ''Great post #ai #\<newline>no tags here\<newline>  #coding#fun x#y'')) \<le> 30 \<and>
   startswith (str ''#ai'') (str ''#'') \<and> startswith (str ''#coding#fun'') (str ''#'')"
  using extract_hashtags_spec [of "str ''Great post #ai #\<newline>no tags here\<newline>  #coding#fun x#y''"]
  by (simp add: split_lines_def split_ws_def startswith_def isspace_def str_def)

lemma py_index_mem: "x \<in> set ys \<Longrightarrow> \<exists>j. py_index ys x = Some j \<and> j < length ys"
  by (induction ys) auto

lemma py_index_append_notin:
  "x \<notin> set pre \<Longrightarrow> py_index (pre @ ys) x = map_option (\<lambda>j. length pre + j) (py_index ys x)"
proof (induction pre)
  case Nil
  show ?case by (cases "py_index ys x") simp_all
next
  case (Cons a pre)
  then have "a \<noteq> x" and "x \<notin> set pre" by auto
  with Cons.IH show ?case by (cases "py_index ys x") simp_all
qed

lemma first_nonblank_find:
  "first_nonblank ls = map_option strip (find (\<lambda>l. strip l \<noteq> []) ls)"
  by (induction ls) auto

lemma first_nonblank_blank: "\<forall>l \<in> set ls. strip l = [] \<Longrightarrow> first_nonblank ls = None"
  by (induction ls) auto

lemma short_loop_skip:
  "\<forall>l \<in> set pre. \<not> short_marker up l \<Longrightarrow>
     short_loop up lines (pre @ rest) = short_loop up lines rest"
  by (induction pre) auto

lemma index_after_prefix:
  assumes "\<forall>l \<in> set pre. \<not> short_marker up l" and "short_marker up line"
    and "line \<in> set (m # post)"
  shows "\<exists>j. py_index (pre @ m # post) line = Some (length pre + j) \<and>
             drop (length pre + j + 1) (pre @ m # post) = drop j post"
proof -
  from assms(1,2) have "line \<notin> set pre" by blast
  moreover obtain j where "py_index (m # post) line = Some j"
    using py_index_mem [OF assms(3)] by blast
  ultimately have "py_index (pre @ m # post) line = Some (length pre + j)"
    by (simp add: py_index_append_notin)
  then show ?thesis by simp
qed

lemma short_loop_blank_tail:
  assumes pre: "\<forall>l \<in> set pre. \<not> short_marker up l"
    and post: "\<forall>l \<in> set post. strip l = []"
  shows "set rest \<subseteq> set (m # post) \<Longrightarrow>
           short_loop up (pre @ m # post) rest = Inr short_placeholder"
proof (induction rest)
  case Nil
  show ?case by simp
next
  case (Cons line rest)
  then have IH: "short_loop up (pre @ m # post) rest = Inr short_placeholder"
    by simp
  show ?case
  proof (cases "short_marker up line")
    case False
    with IH show ?thesis by simp
  next
    case True
    from Cons.prems have "line \<in> set (m # post)" by simp
    from index_after_prefix [OF pre True this] obtain j
      where j: "py_index (pre @ m # post) line = Some (length pre + j)"
        "drop (length pre + j + 1) (pre @ m # post) = drop j post"
      by blast
    have "\<forall>l \<in> set (drop j post). strip l = []"
      using post in_set_dropD by fast
    then have "first_nonblank (drop j post) = None"
      by (rule first_nonblank_blank)
    with True j IH show ?thesis
      by simp
  qed
qed

lemma short_loop_at_marker:
  assumes pre: "\<forall>l \<in> set pre. \<not> short_marker up l" and m: "short_marker up m"
  shows "short_loop up (pre @ m # post) (pre @ m # post) =
           Inr (case find (\<lambda>l. strip l \<noteq> []) post of
                  Some l \<Rightarrow> strip l | None \<Rightarrow> short_placeholder)"
proof -
  have idx: "py_index (pre @ m # post) m = Some (length pre)"
    using pre m py_index_append_notin [of m pre "m # post"] by auto
  have skip: "short_loop up (pre @ m # post) (pre @ m # post) =
      short_loop up (pre @ m # post) (m # post)"
    using pre by (rule short_loop_skip)
  show ?thesis
  proof (cases "find (\<lambda>l. strip l \<noteq> []) post")
    case (Some l)
    then have "first_nonblank post = Some (strip l)"
      by (simp add: first_nonblank_find)
    with Some idx m skip show ?thesis by simp
  next
    case None
    then have blank: "\<forall>l \<in> set post. strip l = []"
      by (simp add: find_None_iff)
    then have "first_nonblank post = None"
      by (rule first_nonblank_blank)
    moreover have "short_loop up (pre @ m # post) post = Inr short_placeholder"
      using short_loop_blank_tail [OF pre blank, of post m] by auto
    ultimately show ?thesis
      using None idx m skip by simp
  qed
qed

lemma split_on_first:
  "sep \<notin> set a \<Longrightarrow> split_on sep (a @ sep # b) = a # split_on sep b"
  by (induction a) (simp_all add: Let_def)

lemma split_on_none: "sep \<notin> set a \<Longrightarrow> split_on sep a = [a]"
  by (induction a) (simp_all add: Let_def)

lemma split_on_blank_lines:
  "sep \<notin> set b \<Longrightarrow> split_on sep (replicate k sep @ b) = replicate k [] @ [b]"
proof (induction k)
  case 0
  then show ?case by (simp add: split_on_none)
next
  case (Suc k)
  then show ?case by (simp add: Let_def)
qed

lemma find_after_blanks:
  "strip [] = [] \<Longrightarrow> strip b \<noteq> [] \<Longrightarrow>
     find (\<lambda>l. strip l \<noteq> []) (replicate k [] @ [b]) = Some b"
  by (induction k) simp_all

lemma short_caption_blank_lines:
  "extract_short_caption ascii_upper
     (str ''SHORT CAPTION'' @ replicate (Suc k) 10 @ str ''Hello world'') =
     Inr (str ''Hello world'')"
proof -
  have no_nl: "10 \<notin> set (str ''SHORT CAPTION'')" "10 \<notin> set (str ''Hello world'')"
    by (simp_all add: str_def)
  have "split_lines (str ''SHORT CAPTION'' @ replicate (Suc k) 10 @ str ''Hello world'') =
      str ''SHORT CAPTION'' # split_on 10 (replicate k 10 @ str ''Hello world'')"
    using split_on_first [OF no_nl(1), of "replicate k 10 @ str ''Hello world''"]
    by (simp add: split_lines_def)
  then have lines: "split_lines (str ''SHORT CAPTION'' @ replicate (Suc k) 10 @ str ''Hello world'') =
      [] @ str ''SHORT CAPTION'' # (replicate k [] @ [str ''Hello world''])"
    by (simp add: split_on_blank_lines [OF no_nl(2)])
  have marker: "short_marker ascii_upper (str ''SHORT CAPTION'')"
    by (simp add: short_marker_def upper_def ascii_upper_def startswith_def str_def)
  have strips: "strip (str ''Hello world'') = str ''Hello world''" "strip [] = []"
    by (simp_all add: strip_def lstrip_def rstrip_def isspace_def str_def)
  have nonempty: "str ''Hello world'' \<noteq> []"
    by (simp add: str_def)
  have found: "find (\<lambda>l. strip l \<noteq> []) (replicate k [] @ [str ''Hello world'']) =
      Some (str ''Hello world'')"
    by (rule find_after_blanks) (simp_all add: strips nonempty)
  have "short_loop ascii_upper ([] @ str ''SHORT CAPTION'' # (replicate k [] @ [str ''Hello world'']))
      ([] @ str ''SHORT CAPTION'' # (replicate k [] @ [str ''Hello world''])) =
      Inr (case find (\<lambda>l. strip l \<noteq> []) (replicate k [] @ [str ''Hello world'']) of
             Some l \<Rightarrow> strip l | None \<Rightarrow> short_placeholder)"
    by (rule short_loop_at_marker) (simp_all add: marker)
  then show ?thesis
    unfolding extract_short_caption_def Let_def lines found by (simp add: strips)
qed

text \<open>
  C7. For every text (and every upper-case table): when no line carries a marker
  (\<open>SHORT CAPTION\<close> or \<open>SHORT:\<close>, in any case), \<open>_extract_short_caption\<close> returns the
  placeholder; when \<open>m\<close> is the first marker line, it returns the first non-blank line
  after \<open>m\<close>, stripped (and the placeholder when no such line follows). It never raises.
  A \<open>SHORT CAPTION\<close> line, any number of blank lines (the code point 10 is the
  newline), then \<open>Hello world\<close> gives \<open>Hello world\<close>.
\<close>

theorem extract_short_caption_spec:
  "((\<forall>l \<in> set (split_lines content). \<not> short_marker up l) \<longrightarrow>
      extract_short_caption up content = Inr short_placeholder) \<and>
   (\<forall>pre m post.
      split_lines content = pre @ m # post \<and> (\<forall>l \<in> set pre. \<not> short_marker up l) \<and>
      short_marker up m \<longrightarrow>
      extract_short_caption up content =
        Inr (case find (\<lambda>l. strip l \<noteq> []) post of
               Some l \<Rightarrow> strip l | None \<Rightarrow> short_placeholder)) \<and>
   (\<forall>k. extract_short_caption ascii_upper
      (str ''SHORT CAPTION'' @ replicate (Suc k) 10 @ str ''Hello world'') =
      Inr (str ''Hello world''))"
proof (intro conjI allI impI)
  assume "\<forall>l \<in> set (split_lines content). \<not> short_marker up l"
  then show "extract_short_caption up content = Inr short_placeholder"
    using short_loop_skip [of "split_lines content" up "split_lines content" "[]"]
    by (simp add: extract_short_caption_def)
next
  fix pre m post
  assume "split_lines content = pre @ m # post \<and> (\<forall>l \<in> set pre. \<not> short_marker up l) \<and>
      short_marker up m"
  then show "extract_short_caption up content =
        Inr (case find (\<lambda>l. strip l \<noteq> []) post of
               Some l \<Rightarrow> strip l | None \<Rightarrow> short_placeholder)"
    using short_loop_at_marker [of pre up m post]
    by (simp add: extract_short_caption_def)
next
  fix k
  show "extract_short_caption ascii_upper
      (str ''SHORT CAPTION'' @ replicate (Suc k) 10 @ str ''Hello world'') =
      Inr (str ''Hello world'')"
    by (rule short_caption_blank_lines)
qed

theorem extract_short_caption_spec_witness:
  "split_lines (str ''intro\<newline>Short: below\<newline>\<newline>  Nice day  \<newline>more'') =
     [str ''intro''] @ str ''Short: below'' # [[], str ''  Nice day  '', str ''more''] \<and>
   \<not> short_marker ascii_upper (str ''intro'') \<and>
   short_marker ascii_upper (str ''Short: below'') \<and>
   extract_short_caption ascii_upper
     (str ''intro\<newline>Short: below\<newline>\<newline>  Nice day  \<newline>more'') = Inr (str ''Nice day'')"
proof -
  let ?X = "str ''intro\<newline>Short: below\<newline>\<newline>  Nice day  \<newline>more''"
  have lines: "split_lines ?X =
      [str ''intro''] @ str ''Short: below'' # [[], str ''  Nice day  '', str ''more'']"
    by (simp add: split_lines_def str_def)
  have nomark: "\<not> short_marker ascii_upper (str ''intro'')"
    by (simp add: short_marker_def upper_def ascii_upper_def startswith_def str_def)
  have mark: "short_marker ascii_upper (str ''Short: below'')"
    by (simp add: short_marker_def upper_def ascii_upper_def startswith_def str_def)
  have strips: "strip [] = []" "strip (str ''  Nice day  '') = str ''Nice day''"
    by (simp_all add: strip_def lstrip_def rstrip_def isspace_def str_def)
  have nonempty: "str ''Nice day'' \<noteq> []"
    by (simp add: str_def)
  note at_marker = extract_short_caption_spec [of ?X ascii_upper, THEN conjunct2,
      THEN conjunct1, rule_format,
      of "[str ''intro'']" "str ''Short: below''" "[[], str ''  Nice day  '', str ''more'']"]
  have "extract_short_caption ascii_upper ?X =
      Inr (case find (\<lambda>l. strip l \<noteq> []) [[], str ''  Nice day  '', str ''more''] of
             Some l \<Rightarrow> strip l | None \<Rightarrow> short_placeholder)"
    by (rule at_marker) (simp add: lines nomark mark)
  then have "extract_short_caption ascii_upper ?X = Inr (str ''Nice day'')"
    by (simp add: strips nonempty)
  with lines nomark mark show ?thesis
    by (intro conjI)
qed

lemma long_loop_skip:
  "\<forall>l \<in> set pre. \<not> long_marker up l \<Longrightarrow>
     long_loop up content lines (pre @ rest) = long_loop up content lines rest"
  by (induction pre) auto

lemma caption_loop_collected:
  "acc \<noteq> [] \<Longrightarrow>
     caption_loop acc ls =
       acc @ filter (\<lambda>s. s \<noteq> []) (takeWhile (\<lambda>s. \<not> startswith s (str ''#'')) (map strip ls))"
proof (induction ls arbitrary: acc)
  case Nil
  show ?case by simp
next
  case (Cons l ls)
  have blank: "\<not> startswith [] [35]"
    by (simp add: startswith_def)
  show ?case
    using Cons.IH [of "acc @ [strip l]"] Cons.IH [of acc] Cons.prems blank
    by (cases "strip l = []") auto
qed

lemma caption_loop_start: "caption_loop [] ls = caption_lines_of ls"
proof (induction ls)
  case Nil
  show ?case by (simp add: caption_lines_of_def)
next
  case (Cons l ls)
  have blank: "\<not> startswith [] [35]"
    by (simp add: startswith_def)
  show ?case
  proof (cases "strip l \<noteq> [] \<and> \<not> startswith (strip l) (str ''#'')")
    case True
    then show ?thesis
      using caption_loop_collected [of "[strip l]" ls]
      by (simp add: caption_lines_of_def)
  next
    case False
    then show ?thesis
      using Cons.IH by (auto simp: caption_lines_of_def)
  qed
qed

lemma long_loop_at_marker:
  assumes pre: "\<forall>l \<in> set pre. \<not> long_marker up l" and m: "long_marker up m"
  shows "long_loop up content (pre @ m # post) (pre @ m # post) =
           Inr (join (str ''\<newline>'') (caption_lines_of post))"
proof -
  have idx: "py_index (pre @ m # post) m = Some (length pre)"
    using pre m py_index_append_notin [of m pre "m # post"] by auto
  have "long_loop up content (pre @ m # post) (pre @ m # post) =
      long_loop up content (pre @ m # post) (m # post)"
    using pre by (rule long_loop_skip)
  with idx m show ?thesis
    by (simp add: caption_loop_start)
qed

text \<open>
  C6, as amended. For every text: when no line carries a marker (\<open>LONG CAPTION\<close> or
  \<open>LONG:\<close>, in any case), \<open>_extract_long_caption\<close> returns the text unchanged; when
  \<open>m\<close> is the first marker line, it returns, joined by newlines, the stripped lines
  after \<open>m\<close> that are neither blank nor start with \<open>#\<close>, up to the first line starting
  with \<open>#\<close> that comes after a collected line. Lines starting with \<open>#\<close> before the
  first collected line are skipped, not collected.
\<close>

theorem extract_long_caption_spec:
  "((\<forall>l \<in> set (split_lines content). \<not> long_marker up l) \<longrightarrow>
      extract_long_caption up content = Inr content) \<and>
   (\<forall>pre m post.
      split_lines content = pre @ m # post \<and> (\<forall>l \<in> set pre. \<not> long_marker up l) \<and>
      long_marker up m \<longrightarrow>
      extract_long_caption up content = Inr (join (str ''\<newline>'') (caption_lines_of post)))"
proof (intro conjI allI impI)
  assume "\<forall>l \<in> set (split_lines content). \<not> long_marker up l"
  then show "extract_long_caption up content = Inr content"
    using long_loop_skip [of "split_lines content" up content "split_lines content" "[]"]
    by (simp add: extract_long_caption_def)
next
  fix pre m post
  assume "split_lines content = pre @ m # post \<and> (\<forall>l \<in> set pre. \<not> long_marker up l) \<and>
      long_marker up m"
  then show "extract_long_caption up content =
      Inr (join (str ''\<newline>'') (caption_lines_of post))"
    using long_loop_at_marker [of pre up m content post]
    by (simp add: extract_long_caption_def)
qed

theorem extract_long_caption_spec_witness:
  "split_lines (str ''Intro\<newline>Long caption:\<newline>#pre\<newline>\<newline> First line \<newline>\<newline>Second\<newline> #tags\<newline>after'') =
     [str ''Intro''] @ str ''Long caption:'' #
       [str ''#pre'', [], str '' First line '', [], str ''Second'', str '' #tags'', str ''after''] \<and>
   \<not> long_marker ascii_upper (str ''Intro'') \<and>
   long_marker ascii_upper (str ''Long caption:'') \<and>
   extract_long_caption ascii_upper
     (str ''Intro\<newline>Long caption:\<newline>#pre\<newline>\<newline> First line \<newline>\<newline>Second\<newline> #tags\<newline>after'') =
     Inr (str ''First line\<newline>Second'')"
proof -
  let ?X = "str ''Intro\<newline>Long caption:\<newline>#pre\<newline>\<newline> First line \<newline>\<newline>Second\<newline> #tags\<newline>after''"
  let ?post = "[str ''#pre'', [], str '' First line '', [], str ''Second'', str '' #tags'',
      str ''after'']"
  have lines: "split_lines ?X = [str ''Intro''] @ str ''Long caption:'' # ?post"
    by (simp add: split_lines_def str_def)
  have nomark: "\<not> long_marker ascii_upper (str ''Intro'')"
    by (simp add: long_marker_def upper_def ascii_upper_def startswith_def str_def)
  have mark: "long_marker ascii_upper (str ''Long caption:'')"
    by (simp add: long_marker_def upper_def ascii_upper_def startswith_def str_def)
  have caption: "join (str ''\<newline>'') (caption_lines_of ?post) = str ''First line\<newline>Second''"
    by (simp add: caption_lines_of_def strip_def lstrip_def rstrip_def isspace_def
        startswith_def str_def)
  note at_marker = extract_long_caption_spec [of ?X ascii_upper, THEN conjunct2, rule_format,
      of "[str ''Intro'']" "str ''Long caption:''" ?post]
  have "extract_long_caption ascii_upper ?X = Inr (join (str ''\<newline>'') (caption_lines_of ?post))"
    by (rule at_marker) (simp add: lines nomark mark)
  then have "extract_long_caption ascii_upper ?X = Inr (str ''First line\<newline>Second'')"
    by (simp only: caption)
  with lines nomark mark show ?thesis
    by (intro conjI)
qed

text \<open>
  The claim C6 as worded collects every non-blank line after the marker; the code
  leaves out a line starting with \<open>#\<close> that comes before the first caption line.
\<close>

theorem extract_long_caption_counterexample:
  "split_lines (str ''LONG:\<newline>#tag\<newline>hello'') = [str ''LONG:'', str ''#tag'', str ''hello''] \<and>
   long_marker ascii_upper (str ''LONG:'') \<and>
   extract_long_caption ascii_upper (str ''LONG:\<newline>#tag\<newline>hello'') = Inr (str ''hello'') \<and>
   join (str ''\<newline>'') (spec_caption_lines [] [str ''#tag'', str ''hello'']) =
     str ''#tag\<newline>hello'' \<and>
   str ''hello'' \<noteq> str ''#tag\<newline>hello''"
proof -
  have lines: "split_lines (str ''LONG:\<newline>#tag\<newline>hello'') =
      [str ''LONG:'', str ''#tag'', str ''hello'']"
    by (simp add: split_lines_def str_def)
  have mark: "long_marker ascii_upper (str ''LONG:'')"
    by (simp add: long_marker_def upper_def ascii_upper_def startswith_def str_def)
  have strips: "strip (str ''#tag'') = str ''#tag''" "strip (str ''hello'') = str ''hello''"
    by (simp_all add: strip_def lstrip_def rstrip_def isspace_def str_def)
  have starts: "startswith (str ''#tag'') [35]" "\<not> startswith (str ''hello'') [35]"
    by (simp_all add: startswith_def str_def)
  have nonempty: "str ''#tag'' \<noteq> []" "str ''hello'' \<noteq> []"
    by (simp_all add: str_def)
  have code: "extract_long_caption ascii_upper (str ''LONG:\<newline>#tag\<newline>hello'') =
      Inr (str ''hello'')"
    by (simp add: extract_long_caption_def lines mark strips starts nonempty)
  have spec: "join (str ''\<newline>'') (spec_caption_lines [] [str ''#tag'', str ''hello'']) =
      str ''#tag\<newline>hello''"
    by (simp add: strips starts nonempty) (simp add: str_def)
  have "str ''hello'' \<noteq> str ''#tag\<newline>hello''"
    by (simp add: str_def)
  with lines mark code spec show ?thesis
    by (intro conjI)
qed

lemma set_rstrip: "set (rstrip s) \<subseteq> set s"
  using set_dropWhileD [of _ isspace "rev s"] by (auto simp: rstrip_def)

lemma safe_topic_example:
  "safe_topic ascii_isalnum (str ''AI: The Future?!'') = str ''AI_The_Future''"
  by (simp add: safe_topic_def rstrip_def replace_char_def ascii_isalnum_def isspace_def
      str_def)

text \<open>
  C8. For every topic (and every \<open>isalnum\<close> table), the sanitised file name component
  holds only alphanumeric characters, hyphens and underscores: it is the topic without
  the characters that are not alphanumeric, space, hyphen or underscore, with the
  trailing whitespace stripped and the spaces replaced by underscores.
  \<open>AI: The Future?!\<close> gives \<open>AI_The_Future\<close>.
\<close>

theorem safe_topic_spec:
  "(\<forall>c \<in> set (safe_topic alnum topic). alnum c \<or> c = 45 \<or> c = 95) \<and>
   safe_topic alnum topic =
     replace_char 32 95
       (rstrip (filter (\<lambda>c. alnum c \<or> c = 32 \<or> c = 45 \<or> c = 95) topic)) \<and>
   safe_topic ascii_isalnum (str ''AI: The Future?!'') = str ''AI_The_Future''"
proof (intro conjI ballI)
  fix c
  assume "c \<in> set (safe_topic alnum topic)"
  then obtain d where d: "d \<in> set (rstrip (filter (\<lambda>c. alnum c \<or> c \<in> set [32, 45, 95]) topic))"
    and c: "c = (if d = 32 then 95 else d)"
    by (auto simp: safe_topic_def replace_char_def)
  from d set_rstrip have "d \<in> set (filter (\<lambda>c. alnum c \<or> c \<in> set [32, 45, 95]) topic)"
    by blast
  then have "alnum d \<or> d = 32 \<or> d = 45 \<or> d = 95"
    by simp
  with c show "alnum c \<or> c = 45 \<or> c = 95"
    by auto
next
  show "safe_topic alnum topic =
     replace_char 32 95
       (rstrip (filter (\<lambda>c. alnum c \<or> c = 32 \<or> c = 45 \<or> c = 95) topic))"
    by (simp add: safe_topic_def)
next
  show "safe_topic ascii_isalnum (str ''AI: The Future?!'') = str ''AI_The_Future''"
    by (rule safe_topic_example)
qed

theorem safe_topic_spec_witness:
  "safe_topic ascii_isalnum (str ''  C++ & Rust: 100% safe? - yes_no  '') =
     str ''__C__Rust_100_safe_-_yes_no'' \<and>
   list_all (\<lambda>c. ascii_isalnum c \<or> c = 45 \<or> c = 95)
     (safe_topic ascii_isalnum (str ''  C++ & Rust: 100% safe? - yes_no  ''))"
proof -
  let ?T = "str ''  C++ & Rust: 100% safe? - yes_no  ''"
  have val: "safe_topic ascii_isalnum ?T = str ''__C__Rust_100_safe_-_yes_no''"
    by (simp add: safe_topic_def rstrip_def replace_char_def ascii_isalnum_def isspace_def
        str_def)
  from safe_topic_spec [of ascii_isalnum ?T]
  have "\<forall>c \<in> set (safe_topic ascii_isalnum ?T). ascii_isalnum c \<or> c = 45 \<or> c = 95"
    by (rule conjunct1)
  then have "list_all (\<lambda>c. ascii_isalnum c \<or> c = 45 \<or> c = 95) (safe_topic ascii_isalnum ?T)"
    by (simp only: list_all_iff)
  with val show ?thesis
    by (intro conjI)
qed

section \<open>Properties of the image generator\<close>

lemma str_inject: "str a = str b \<longleftrightarrow> a = b"
proof -
  have "inj (of_char :: char \<Rightarrow> nat)"
    by (rule injI) simp
  then show ?thesis
    by (simp add: str_def inj_map_eq_map)
qed

text \<open>
  C1, as amended. Constructing the generator succeeds for each of the four provider
  names, whatever the keys are: it stores the configured key as it is (also when it is
  \<open>None\<close> or empty), and the empty string for \<open>pollinations\<close>. It fails, with a
  \<open>ValueError\<close>, exactly when the provider name is none of the four.
\<close>

theorem new_image_generator_spec:
  "new_image_generator cfg kind =
     (if kind = str ''nano_banana'' then Inr \<lparr>api_type = kind, api_key = NANO_BANANA_API_KEY cfg\<rparr>
      else if kind = str ''segmind'' then Inr \<lparr>api_type = kind, api_key = SEGMIND_API_KEY cfg\<rparr>
      else if kind = str ''stability'' then Inr \<lparr>api_type = kind, api_key = STABILITY_API_KEY cfg\<rparr>
      else if kind = str ''pollinations'' then Inr \<lparr>api_type = kind, api_key = Some (str '''')\<rparr>
      else Inl (ValueError (str ''Unsupported API type: '' @ kind)))"
  by (simp add: new_image_generator_def get_api_key_def)

theorem new_image_generator_spec_witness:
  "new_image_generator
     \<lparr>NANO_BANANA_API_KEY = None, SEGMIND_API_KEY = None, STABILITY_API_KEY = None,
      IMAGE_GENERATION_API = str ''stability''\<rparr> (str ''stability'') =
     Inr \<lparr>api_type = str ''stability'', api_key = None\<rparr> \<and>
   new_image_generator
     \<lparr>NANO_BANANA_API_KEY = None, SEGMIND_API_KEY = None, STABILITY_API_KEY = None,
      IMAGE_GENERATION_API = str ''stability''\<rparr> (str ''dalle'') =
     Inl (ValueError (str ''Unsupported API type: dalle''))"
  using new_image_generator_spec
      [of "\<lparr>NANO_BANANA_API_KEY = None, SEGMIND_API_KEY = None, STABILITY_API_KEY = None,
          IMAGE_GENERATION_API = str ''stability''\<rparr>" "str ''stability''"]
    new_image_generator_spec
      [of "\<lparr>NANO_BANANA_API_KEY = None, SEGMIND_API_KEY = None, STABILITY_API_KEY = None,
          IMAGE_GENERATION_API = str ''stability''\<rparr>" "str ''dalle''"]
  by (simp add: str_inject) (simp add: str_def)

text \<open>
  The claim C1 as worded makes a missing key a construction error; with no key for
  Nano Banana and an empty key for Segmind both constructions succeed.
\<close>

theorem new_image_generator_counterexample:
  "new_image_generator
     \<lparr>NANO_BANANA_API_KEY = None, SEGMIND_API_KEY = Some (str ''''), STABILITY_API_KEY = None,
      IMAGE_GENERATION_API = str ''nano_banana''\<rparr> (str ''nano_banana'') =
     Inr \<lparr>api_type = str ''nano_banana'', api_key = None\<rparr> \<and>
   new_image_generator
     \<lparr>NANO_BANANA_API_KEY = None, SEGMIND_API_KEY = Some (str ''''), STABILITY_API_KEY = None,
      IMAGE_GENERATION_API = str ''nano_banana''\<rparr> (str ''segmind'') =
     Inr \<lparr>api_type = str ''segmind'', api_key = Some (str '''')\<rparr>"
  by (simp add: new_image_generator_def get_api_key_def str_inject)





lemma try_prompt_world:
  "snd (try_prompt net api req body prompt images w) = w\<lparr>posts := posts w @ [req prompt]\<rparr>"
  by (simp add: try_prompt_def http_post_def split: sum.splits prod.splits option.splits)




lemma prompt_loop_world:
  "snd (prompt_loop net api req body prompts images w) =
     w\<lparr>posts := posts w @ map req prompts\<rparr>"
proof (induction prompts arbitrary: images w)
  case Nil
  show ?case by simp
next
  case (Cons prompt prompts)
  obtain images' w' where step: "try_prompt net api req body prompt images w = (images', w')"
    by (cases "try_prompt net api req body prompt images w")
  then have "w' = w\<lparr>posts := posts w @ [req prompt]\<rparr>"
    using try_prompt_world [of net api req body prompt images w] by simp
  with step Cons.IH [of images' w'] show ?case
    by simp
qed





lemma generate_images_key_based:
  assumes "key_based self"
  shows "generate_images net rng self prompts num_images w =
           (Inr (fst (prompt_loop net (api_type self) (request_of self num_images) (body_of self)
                        prompts [] w)),
            snd (prompt_loop net (api_type self) (request_of self num_images) (body_of self)
                   prompts [] w))"
  using assms
  by (auto simp: key_based_def generate_images_def request_of_def body_of_def
      generate_nano_banana_def generate_segmind_def generate_stability_def str_inject
      split: prod.splits)

lemma request_payloads:
  "req_json (nano_banana_request key n p) =
     JObj [(str ''model'', JStr (str ''nano-banana-v1'')), (str ''prompt'', JStr p),
           (str ''n'', JInt n), (str ''size'', JStr (str ''1024x1024'')),
           (str ''quality'', JStr (str ''hd''))]"
  "req_json (segmind_request key n p) =
     JObj [(str ''prompt'', JStr p), (str ''num_inference_steps'', JInt 20),
           (str ''guidance_scale'', JFloat 75 (- 1)), (str ''width'', JInt 1024),
           (str ''height'', JInt 1024), (str ''num_images'', JInt n)]"
  "req_json (stability_request key n p) =
     JObj [(str ''text_prompts'', JList [JObj [(str ''text'', JStr p)]]),
           (str ''cfg_scale'', JInt 7), (str ''height'', JInt 1024), (str ''width'', JInt 1024),
           (str ''samples'', JInt n), (str ''steps'', JInt 30)]"
  by (simp_all add: nano_banana_request_def segmind_request_def stability_request_def)

text \<open>
  C2, as amended. Under a key-based provider \<open>generate_images\<close> never raises and sends
  exactly one POST for each prompt, in the order of the prompts, \<open>len(prompts)\<close> in all,
  whatever \<open>num_images\<close> is. Each carries its prompt, \<open>num_images\<close> as the number of
  images asked for, and the provider's fixed parameters: size 1024x1024 and quality
  \<open>hd\<close> for Nano Banana; 1024 by 1024, 20 steps, guidance 7.5 for Segmind; 1024 by 1024,
  30 steps, \<open>cfg_scale\<close> 7 for Stability AI.
\<close>

theorem generate_images_one_post_per_prompt:
  assumes "key_based self"
  shows "(\<exists>images. fst (generate_images net rng self prompts num_images w) = Inr images) \<and>
    posts (snd (generate_images net rng self prompts num_images w)) =
      posts w @ map (request_of self num_images) prompts \<and>
    length (posts (snd (generate_images net rng self prompts num_images w))) =
      length (posts w) + length prompts \<and>
    (\<forall>p. req_json (request_of self num_images p) =
       (if api_type self = str ''nano_banana'' then
          JObj [(str ''model'', JStr (str ''nano-banana-v1'')), (str ''prompt'', JStr p),
                (str ''n'', JInt num_images), (str ''size'', JStr (str ''1024x1024'')),
                (str ''quality'', JStr (str ''hd''))]
        else if api_type self = str ''segmind'' then
          JObj [(str ''prompt'', JStr p), (str ''num_inference_steps'', JInt 20),
                (str ''guidance_scale'', JFloat 75 (- 1)), (str ''width'', JInt 1024),
                (str ''height'', JInt 1024), (str ''num_images'', JInt num_images)]
        else
          JObj [(str ''text_prompts'', JList [JObj [(str ''text'', JStr p)]]),
                (str ''cfg_scale'', JInt 7), (str ''height'', JInt 1024),
                (str ''width'', JInt 1024), (str ''samples'', JInt num_images),
                (str ''steps'', JInt 30)]))"
proof -
  note gen = generate_images_key_based [OF assms, of net rng prompts num_images w]
  have res: "\<exists>images. fst (generate_images net rng self prompts num_images w) = Inr images"
    unfolding gen by simp
  have sent: "posts (snd (generate_images net rng self prompts num_images w)) =
      posts w @ map (request_of self num_images) prompts"
    unfolding gen by (simp add: prompt_loop_world del: prompt_loop.simps)
  have count: "length (posts (snd (generate_images net rng self prompts num_images w))) =
      length (posts w) + length prompts"
    unfolding sent by simp
  have payload: "\<forall>p. req_json (request_of self num_images p) =
       (if api_type self = str ''nano_banana'' then
          JObj [(str ''model'', JStr (str ''nano-banana-v1'')), (str ''prompt'', JStr p),
                (str ''n'', JInt num_images), (str ''size'', JStr (str ''1024x1024'')),
                (str ''quality'', JStr (str ''hd''))]
        else if api_type self = str ''segmind'' then
          JObj [(str ''prompt'', JStr p), (str ''num_inference_steps'', JInt 20),
                (str ''guidance_scale'', JFloat 75 (- 1)), (str ''width'', JInt 1024),
                (str ''height'', JInt 1024), (str ''num_images'', JInt num_images)]
        else
          JObj [(str ''text_prompts'', JList [JObj [(str ''text'', JStr p)]]),
                (str ''cfg_scale'', JInt 7), (str ''height'', JInt 1024),
                (str ''width'', JInt 1024), (str ''samples'', JInt num_images),
                (str ''steps'', JInt 30)])"
    by (simp add: request_of_def request_payloads)
  from res sent count payload show ?thesis
    by (intro conjI)
qed

theorem generate_images_one_post_per_prompt_witness:
  "key_based \<lparr>api_type = str ''segmind'', api_key = Some (str ''k'')\<rparr> \<and>
   posts (snd (generate_images (\<lambda>k r. Inr (JObj [])) (\<lambda>k. 0)
       \<lparr>api_type = str ''segmind'', api_key = Some (str ''k'')\<rparr> [str ''a cat'', str ''a dog''] 3
       \<lparr>posts = [], draws = 0\<rparr>)) =
     [segmind_request (Some (str ''k'')) 3 (str ''a cat''),
      segmind_request (Some (str ''k'')) 3 (str ''a dog'')]"
proof -
  let ?self = "\<lparr>api_type = str ''segmind'', api_key = Some (str ''k'')\<rparr>"
  have kb: "key_based ?self"
    by (simp add: key_based_def)
  have req: "request_of ?self 3 = segmind_request (Some (str ''k'')) 3"
    by (simp add: request_of_def str_inject)
  from generate_images_one_post_per_prompt [OF kb, of "\<lambda>k r. Inr (JObj [])" "\<lambda>k. 0"
      "[str ''a cat'', str ''a dog'']" 3 "\<lparr>posts = [], draws = 0\<rparr>"]
  have "posts (snd (generate_images (\<lambda>k r. Inr (JObj [])) (\<lambda>k. 0) ?self
      [str ''a cat'', str ''a dog''] 3 \<lparr>posts = [], draws = 0\<rparr>)) =
      posts \<lparr>posts = [], draws = 0\<rparr> @ map (request_of ?self 3) [str ''a cat'', str ''a dog'']"
    by blast
  then have "posts (snd (generate_images (\<lambda>k r. Inr (JObj [])) (\<lambda>k. 0) ?self
      [str ''a cat'', str ''a dog''] 3 \<lparr>posts = [], draws = 0\<rparr>)) =
      [segmind_request (Some (str ''k'')) 3 (str ''a cat''),
       segmind_request (Some (str ''k'')) 3 (str ''a dog'')]"
    by (simp add: req)
  with kb show ?thesis
    by (intro conjI)
qed

text \<open>
  The claim C2 as worded counts one POST for each repetition; the code sends one POST
  for each prompt and puts the number of images into its payload.
\<close>

theorem generate_images_posts_counterexample:
  "length (posts (snd (generate_images (\<lambda>k r. Inr (JObj [])) (\<lambda>k. 0)
       \<lparr>api_type = str ''nano_banana'', api_key = Some (str ''k'')\<rparr> [str ''a cat''] 2
       \<lparr>posts = [], draws = 0\<rparr>))) = 1 \<and>
   length [str ''a cat''] * nat 2 = 2"
proof -
  have "key_based \<lparr>api_type = str ''nano_banana'', api_key = Some (str ''k'')\<rparr>"
    by (simp add: key_based_def)
  then show ?thesis
    by (simp add: generate_images_key_based prompt_loop_world del: prompt_loop.simps)
qed



lemma digits_small: "n < 10 \<Longrightarrow> digits n = [48 + n]"
  by (simp add: digits.simps)

lemma digits_large: "\<not> n < 10 \<Longrightarrow> digits n = digits (n div 10) @ [48 + n mod 10]"
  by (subst digits.simps) simp

lemma digits_numeric: "list_all (\<lambda>c. 48 \<le> c \<and> c \<le> 57) (digits n) \<and> digits n \<noteq> []"
proof (induction n rule: digits.induct)
  case (1 n)
  show ?case
  proof (cases "n < 10")
    case True
    then show ?thesis by (simp add: digits_small)
  next
    case False
    have "n mod 10 < 10" by simp
    then have "48 + n mod 10 \<le> 57" by linarith
    with False 1 show ?thesis by (simp add: digits_large)
  qed
qed

lemma utf8_encode_encodable: "encodable s \<Longrightarrow> \<exists>bs. utf8_encode s = Inr bs"
proof (induction s)
  case Nil
  show ?case by simp
next
  case (Cons c s)
  then have c: "c < 55296 \<or> (57343 < c \<and> c < 1114112)" and s: "encodable s"
    by (simp_all add: encodable_def)
  from c have "\<exists>bs. utf8_char c = Some bs"
    by (auto simp: utf8_char_def)
  with Cons.IH [OF s] show ?case
    by auto
qed

lemma quote_encodable: "encodable s \<Longrightarrow> \<exists>q. quote s = Inr q"
  using utf8_encode_encodable [of s] by (auto simp: quote_def)

lemma randint_seed:
  "randint rng 1 10000000 w = (seed_at rng (draws w), w\<lparr>draws := draws w + 1\<rparr>)"
  by (simp add: randint_def seed_at_def)

lemma seed_at_range: "1 \<le> seed_at rng d \<and> seed_at rng d \<le> 10000000"
proof -
  have "rng d mod 10000000 < 10000000" by simp
  then show ?thesis unfolding seed_at_def by linarith
qed

lemma prompt_of_image:
  "py_get (pollinations_image prompt url) (str ''prompt'') JNull = Inr (JStr prompt)"
  by (simp add: pollinations_image_def)

lemma seed_loop_ok:
  assumes "quote prompt = Inr q"
  shows "seed_loop rng prompt k images w =
           (Inr (images @
              map (\<lambda>i. pollinations_image prompt (pollinations_url q (seed_at rng (draws w + i))))
                [0..<k]),
            w\<lparr>draws := draws w + k\<rparr>)"
proof (induction k arbitrary: images w)
  case 0
  show ?case by simp
next
  case (Suc k)
  let ?img = "\<lambda>d. pollinations_image prompt (pollinations_url q (seed_at rng d))"
  have "map (\<lambda>i. ?img (draws w + i)) [0..<Suc k] =
      ?img (draws w) # map (\<lambda>i. ?img (draws w + 1 + i)) [0..<k]"
    by (simp add: upt_conv_Cons map_Suc_upt [symmetric] del: upt_Suc)
  then show ?case
    using assms Suc.IH [of "images @ [?img (draws w)]" "w\<lparr>draws := draws w + 1\<rparr>"]
    by (simp add: randint_seed del: upt_Suc)
qed

lemma pollinations_loop_ok:
  assumes "list_all encodable prompts"
  shows "\<exists>new. pollinations_loop rng num_images prompts images w =
           (Inr (images @ new), w\<lparr>draws := draws w + length prompts * nat (max 1 num_images)\<rparr>) \<and>
         length new = length prompts * nat (max 1 num_images) \<and>
         map (\<lambda>img. py_get img (str ''prompt'') JNull) new =
           concat (map (\<lambda>p. replicate (nat (max 1 num_images)) (Inr (JStr p))) prompts)"
  using assms
proof (induction prompts arbitrary: images w)
  case Nil
  show ?case by simp
next
  case (Cons p prompts)
  let ?k = "nat (max 1 num_images)"
  from Cons.prems have p: "encodable p" and rest: "list_all encodable prompts"
    by simp_all
  from quote_encodable [OF p] obtain q where q: "quote p = Inr q" ..
  let ?first = "map (\<lambda>i. pollinations_image p (pollinations_url q (seed_at rng (draws w + i))))
      [0..<?k]"
  have step: "seed_loop rng p ?k images w = (Inr (images @ ?first), w\<lparr>draws := draws w + ?k\<rparr>)"
    using q by (rule seed_loop_ok)
  from Cons.IH [OF rest, of "images @ ?first" "w\<lparr>draws := draws w + ?k\<rparr>"]
  obtain new where new:
    "pollinations_loop rng num_images prompts (images @ ?first) (w\<lparr>draws := draws w + ?k\<rparr>) =
       (Inr ((images @ ?first) @ new),
        w\<lparr>draws := draws w + ?k\<rparr>\<lparr>draws := draws (w\<lparr>draws := draws w + ?k\<rparr>) + length prompts * ?k\<rparr>)"
    "length new = length prompts * ?k"
    "map (\<lambda>img. py_get img (str ''prompt'') JNull) new =
       concat (map (\<lambda>p. replicate ?k (Inr (JStr p))) prompts)"
    by blast
  have prompts_first: "map (\<lambda>img. py_get img (str ''prompt'') JNull) ?first =
      replicate ?k (Inr (JStr p))"
    by (simp add: comp_def prompt_of_image map_replicate_const)
  have "pollinations_loop rng num_images (p # prompts) images w =
      (Inr (images @ ?first @ new),
       w\<lparr>draws := draws w + length (p # prompts) * ?k\<rparr>)"
    using step new(1) by (simp add: add.assoc)
  moreover have "length (?first @ new) = length (p # prompts) * ?k"
    using new(2) by simp
  moreover have "map (\<lambda>img. py_get img (str ''prompt'') JNull) (?first @ new) =
      concat (map (\<lambda>p. replicate ?k (Inr (JStr p))) (p # prompts))"
    using new(3) prompts_first by simp
  ultimately show ?case
    by blast
qed

text \<open>
  C10, as amended. For every list of prompts that \<open>quote\<close> can encode (Unicode text
  without a lone surrogate code point) and every integer
  \<open>num_images\<close>, \<open>_generate_pollinations\<close> returns \<open>len(prompts) * max(1, num_images)\<close>
  entries, so one for each prompt when \<open>num_images\<close> is zero or negative; the
  \<open>prompt\<close> fields are the prompts, each repeated \<open>max(1, num_images)\<close> times, in the
  order of the input.
\<close>

theorem generate_pollinations_count:
  assumes "list_all encodable prompts"
  shows "\<exists>images.
      generate_pollinations rng prompts num_images w =
        (Inr images, w\<lparr>draws := draws w + length prompts * nat (max 1 num_images)\<rparr>) \<and>
      length images = length prompts * nat (max 1 num_images) \<and>
      (num_images \<le> 0 \<longrightarrow> length images = length prompts) \<and>
      map (\<lambda>img. py_get img (str ''prompt'') JNull) images =
        concat (map (\<lambda>p. replicate (nat (max 1 num_images)) (Inr (JStr p))) prompts)"
proof -
  from pollinations_loop_ok [OF assms, of rng num_images "[]" w] obtain images where
    run: "generate_pollinations rng prompts num_images w =
        (Inr images, w\<lparr>draws := draws w + length prompts * nat (max 1 num_images)\<rparr>)"
    and len: "length images = length prompts * nat (max 1 num_images)"
    and fields: "map (\<lambda>img. py_get img (str ''prompt'') JNull) images =
        concat (map (\<lambda>p. replicate (nat (max 1 num_images)) (Inr (JStr p))) prompts)"
    by (auto simp: generate_pollinations_def)
  have "num_images \<le> 0 \<longrightarrow> length images = length prompts"
    using len by (simp add: max_def)
  with run len fields show ?thesis
    by blast
qed

theorem generate_pollinations_count_witness:
  "list_all encodable [str ''a cat'', str ''sun''] \<and>
   length (projr (fst (generate_pollinations (\<lambda>k. k) [str ''a cat'', str ''sun''] (- 2)
      \<lparr>posts = [], draws = 0\<rparr>))) = 2 \<and>
   map (\<lambda>img. py_get img (str ''prompt'') JNull)
     (projr (fst (generate_pollinations (\<lambda>k. k) [str ''a cat'', str ''sun''] (- 2)
        \<lparr>posts = [], draws = 0\<rparr>))) =
     [Inr (JStr (str ''a cat'')), Inr (JStr (str ''sun''))]"
proof -
  have enc: "list_all encodable [str ''a cat'', str ''sun'']"
    by (simp add: encodable_def str_def)
  from generate_pollinations_count [OF enc, of "\<lambda>k. k" "- 2" "\<lparr>posts = [], draws = 0\<rparr>"]
  obtain images where
    run: "generate_pollinations (\<lambda>k. k) [str ''a cat'', str ''sun''] (- 2)
        \<lparr>posts = [], draws = 0\<rparr> =
        (Inr images, \<lparr>posts = [], draws = 0\<rparr>
           \<lparr>draws := draws \<lparr>posts = [], draws = 0\<rparr> +
              length [str ''a cat'', str ''sun''] * nat (max 1 (- 2))\<rparr>)"
    and len: "length images = length [str ''a cat'', str ''sun''] * nat (max 1 (- 2))"
    and fields: "map (\<lambda>img. py_get img (str ''prompt'') JNull) images =
        concat (map (\<lambda>p. replicate (nat (max 1 (- 2))) (Inr (JStr p)))
          [str ''a cat'', str ''sun''])"
    by blast
  have "length (projr (fst (generate_pollinations (\<lambda>k. k) [str ''a cat'', str ''sun''] (- 2)
      \<lparr>posts = [], draws = 0\<rparr>))) = 2"
    unfolding run using len by simp
  moreover have "map (\<lambda>img. py_get img (str ''prompt'') JNull)
     (projr (fst (generate_pollinations (\<lambda>k. k) [str ''a cat'', str ''sun''] (- 2)
        \<lparr>posts = [], draws = 0\<rparr>))) =
     [Inr (JStr (str ''a cat'')), Inr (JStr (str ''sun''))]"
    unfolding run using fields by simp
  ultimately show ?thesis
    using enc by (intro conjI)
qed

text \<open>
  The claim C10 as worded holds for every list of prompts; a prompt that is the lone
  surrogate U+DCE9 makes \<open>quote\<close> raise, and no list is returned.
\<close>

theorem generate_pollinations_count_counterexample:
  "\<not> encodable [56553] \<and>
   generate_pollinations (\<lambda>k. k) [[56553]] 1 \<lparr>posts = [], draws = 0\<rparr> =
     (Inl UnicodeEncodeError, \<lparr>posts = [], draws = 1\<rparr>)"
  by (simp add: encodable_def generate_pollinations_def randint_def quote_def utf8_char_def)

lemma generate_images_pollinations:
  "api_type self = str ''pollinations'' \<Longrightarrow>
     generate_images net rng self prompts num_images w =
       generate_pollinations rng prompts num_images w"
  by (simp add: generate_images_def str_inject)

lemma str_of_int_numeric:
  "0 \<le> i \<Longrightarrow> list_all (\<lambda>c. 48 \<le> c \<and> c \<le> 57) (str_of_int i) \<and> str_of_int i \<noteq> []"
  using digits_numeric [of "nat i"] by (simp add: str_of_int_def)

text \<open>
  C9, as amended. With the provider \<open>pollinations\<close>, two prompts that \<open>quote\<close> can
  encode (Unicode text without a lone surrogate code point) and one image for each,
  \<open>generate_images\<close> returns exactly two entries and sends no request. The URL of each
  entry is the base address, the quoted prompt, and the query that ends in \<open>seed=\<close>
  followed by the decimal digits of a number from 1 to 10,000,000; it is not empty.
\<close>

theorem generate_images_pollinations_two_prompts:
  assumes "api_type self = str ''pollinations''" and "encodable p1" and "encodable p2"
  shows "\<exists>q1 q2 s1 s2.
      quote p1 = Inr q1 \<and> quote p2 = Inr q2 \<and>
      1 \<le> s1 \<and> s1 \<le> 10000000 \<and> 1 \<le> s2 \<and> s2 \<le> 10000000 \<and>
      list_all (\<lambda>c. 48 \<le> c \<and> c \<le> 57) (str_of_int s1) \<and>
      list_all (\<lambda>c. 48 \<le> c \<and> c \<le> 57) (str_of_int s2) \<and>
      generate_images net rng self [p1, p2] 1 w =
        (Inr [JObj [(str ''prompt'', JStr p1),
                    (str ''url'', JStr (str ''https://image.pollinations.ai/prompt/'' @ q1 @
                       str ''?width=1024&height=1024&enhance=true&seed='' @ str_of_int s1)),
                    (str ''api'', JStr (str ''pollinations''))],
              JObj [(str ''prompt'', JStr p2),
                    (str ''url'', JStr (str ''https://image.pollinations.ai/prompt/'' @ q2 @
                       str ''?width=1024&height=1024&enhance=true&seed='' @ str_of_int s2)),
                    (str ''api'', JStr (str ''pollinations''))]],
         w\<lparr>draws := draws w + 2\<rparr>) \<and>
      posts (snd (generate_images net rng self [p1, p2] 1 w)) = posts w \<and>
      str ''https://image.pollinations.ai/prompt/'' @ q1 @
        str ''?width=1024&height=1024&enhance=true&seed='' @ str_of_int s1 \<noteq> [] \<and>
      str ''https://image.pollinations.ai/prompt/'' @ q2 @
        str ''?width=1024&height=1024&enhance=true&seed='' @ str_of_int s2 \<noteq> []"
proof -
  from quote_encodable [OF assms(2)] obtain q1 where q1: "quote p1 = Inr q1" ..
  from quote_encodable [OF assms(3)] obtain q2 where q2: "quote p2 = Inr q2" ..
  let ?s1 = "seed_at rng (draws w)" and ?s2 = "seed_at rng (draws w + 1)"
  have one: "nat (max 1 (1::int)) = Suc 0"
    by simp
  have loop1: "seed_loop rng p1 (Suc 0) [] w =
      (Inr [pollinations_image p1 (pollinations_url q1 ?s1)], w\<lparr>draws := draws w + 1\<rparr>)"
    using seed_loop_ok [OF q1, of rng "Suc 0" "[]" w] by simp
  have loop2: "seed_loop rng p2 (Suc 0) [pollinations_image p1 (pollinations_url q1 ?s1)]
      (w\<lparr>draws := draws w + 1\<rparr>) =
      (Inr [pollinations_image p1 (pollinations_url q1 ?s1),
            pollinations_image p2 (pollinations_url q2 ?s2)], w\<lparr>draws := draws w + 2\<rparr>)"
    using seed_loop_ok [OF q2, of rng "Suc 0" "[pollinations_image p1 (pollinations_url q1 ?s1)]"
        "w\<lparr>draws := draws w + 1\<rparr>"] by simp
  have gen: "generate_images net rng self [p1, p2] 1 w =
      (Inr [pollinations_image p1 (pollinations_url q1 ?s1),
            pollinations_image p2 (pollinations_url q2 ?s2)], w\<lparr>draws := draws w + 2\<rparr>)"
    unfolding generate_images_pollinations [OF assms(1)] generate_pollinations_def
    by (simp only: pollinations_loop.simps one loop1 loop2 prod.case sum.case)
  have base: "str ''https://image.pollinations.ai/prompt/'' \<noteq> []"
    by (simp add: str_def)
  have r1: "1 \<le> ?s1 \<and> ?s1 \<le> 10000000" and r2: "1 \<le> ?s2 \<and> ?s2 \<le> 10000000"
    by (rule seed_at_range)+
  then have n1: "list_all (\<lambda>c. 48 \<le> c \<and> c \<le> 57) (str_of_int ?s1)"
    and n2: "list_all (\<lambda>c. 48 \<le> c \<and> c \<le> 57) (str_of_int ?s2)"
    using str_of_int_numeric [of ?s1] str_of_int_numeric [of ?s2] by simp_all
  show ?thesis
    apply (rule exI [of _ q1], rule exI [of _ q2], rule exI [of _ ?s1], rule exI [of _ ?s2])
    using q1 q2 r1 r2 n1 n2 base
    by (simp add: gen pollinations_image_def pollinations_url_def)
qed

theorem generate_images_pollinations_two_prompts_witness:
  "encodable (str ''a cat'') \<and> encodable (str ''sun/set!'') \<and>
   quote (str ''a cat'') = Inr (str ''a%20cat'') \<and>
   quote (str ''sun/set!'') = Inr (str ''sun/set%21'') \<and>
   posts (snd (generate_images (\<lambda>k r. Inl (str ''unreachable'')) (\<lambda>k. 41 + k)
     \<lparr>api_type = str ''pollinations'', api_key = Some (str '''')\<rparr>
     [str ''a cat'', str ''sun/set!''] 1 \<lparr>posts = [], draws = 0\<rparr>)) = [] \<and>
   generate_images (\<lambda>k r. Inl (str ''unreachable'')) (\<lambda>k. 41 + k)
     \<lparr>api_type = str ''pollinations'', api_key = Some (str '''')\<rparr>
     [str ''a cat'', str ''sun/set!''] 1 \<lparr>posts = [], draws = 0\<rparr> =
   (Inr [JObj [(str ''prompt'', JStr (str ''a cat'')),
               (str ''url'', JStr (str
                  ''https://image.pollinations.ai/prompt/a%20cat?width=1024&height=1024&enhance=true&seed=42'')),
               (str ''api'', JStr (str ''pollinations''))],
         JObj [(str ''prompt'', JStr (str ''sun/set!'')),
               (str ''url'', JStr (str
                  ''https://image.pollinations.ai/prompt/sun/set%21?width=1024&height=1024&enhance=true&seed=43'')),
               (str ''api'', JStr (str ''pollinations''))]],
    \<lparr>posts = [], draws = 2\<rparr>)"
proof -
  let ?self = "\<lparr>api_type = str ''pollinations'', api_key = Some (str '''')\<rparr>"
  let ?w = "\<lparr>posts = [], draws = 0\<rparr>"
  have e1: "encodable (str ''a cat'')" and e2: "encodable (str ''sun/set!'')"
    by (simp_all add: encodable_def str_def)
  have q1: "quote (str ''a cat'') = Inr (str ''a%20cat'')"
    and q2: "quote (str ''sun/set!'') = Inr (str ''sun/set%21'')"
    by (simp_all add: quote_def utf8_char_def quote_byte_def always_safe_def hex_digit_def
        str_def)
  have ty: "api_type ?self = str ''pollinations''"
    by simp
  from generate_images_pollinations_two_prompts [OF ty e1 e2,
      of "\<lambda>k r. Inl (str ''unreachable'')" "\<lambda>k. 41 + k" ?w]
  obtain s1 s2 where
    run: "generate_images (\<lambda>k r. Inl (str ''unreachable'')) (\<lambda>k. 41 + k) ?self
        [str ''a cat'', str ''sun/set!''] 1 ?w =
        (Inr [JObj [(str ''prompt'', JStr (str ''a cat'')),
                    (str ''url'', JStr (str ''https://image.pollinations.ai/prompt/'' @
                       str ''a%20cat'' @
                       str ''?width=1024&height=1024&enhance=true&seed='' @ str_of_int s1)),
                    (str ''api'', JStr (str ''pollinations''))],
              JObj [(str ''prompt'', JStr (str ''sun/set!'')),
                    (str ''url'', JStr (str ''https://image.pollinations.ai/prompt/'' @
                       str ''sun/set%21'' @
                       str ''?width=1024&height=1024&enhance=true&seed='' @ str_of_int s2)),
                    (str ''api'', JStr (str ''pollinations''))]],
         ?w\<lparr>draws := draws ?w + 2\<rparr>)"
    unfolding q1 q2 by auto
  have direct: "generate_images (\<lambda>k r. Inl (str ''unreachable'')) (\<lambda>k. 41 + k) ?self
        [str ''a cat'', str ''sun/set!''] 1 ?w =
      (Inr [pollinations_image (str ''a cat'') (pollinations_url (str ''a%20cat'') 42),
            pollinations_image (str ''sun/set!'') (pollinations_url (str ''sun/set%21'') 43)],
       \<lparr>posts = [], draws = 2\<rparr>)"
    by (simp add: generate_images_pollinations generate_pollinations_def q1 q2 randint_def)
  have seeds: "str_of_int 42 = str ''42''" "str_of_int 43 = str ''43''"
    by (simp_all add: str_of_int_def digits_small digits_large str_def)
  have sent: "posts (snd (generate_images (\<lambda>k r. Inl (str ''unreachable'')) (\<lambda>k. 41 + k) ?self
        [str ''a cat'', str ''sun/set!''] 1 ?w)) = []"
    unfolding run by simp
  have result: "generate_images (\<lambda>k r. Inl (str ''unreachable'')) (\<lambda>k. 41 + k) ?self
        [str ''a cat'', str ''sun/set!''] 1 ?w =
   (Inr [JObj [(str ''prompt'', JStr (str ''a cat'')),
               (str ''url'', JStr (str
                  ''https://image.pollinations.ai/prompt/a%20cat?width=1024&height=1024&enhance=true&seed=42'')),
               (str ''api'', JStr (str ''pollinations''))],
         JObj [(str ''prompt'', JStr (str ''sun/set!'')),
               (str ''url'', JStr (str
                  ''https://image.pollinations.ai/prompt/sun/set%21?width=1024&height=1024&enhance=true&seed=43'')),
               (str ''api'', JStr (str ''pollinations''))]],
    \<lparr>posts = [], draws = 2\<rparr>)"
    unfolding direct by (simp add: pollinations_image_def pollinations_url_def seeds)
      (simp add: str_def)
  from e1 e2 q1 q2 sent result show ?thesis
    by (intro conjI)
qed

text \<open>
  The claim C9 as worded holds for any two prompts; when the second is the lone
  surrogate U+DCE9, \<open>quote\<close> raises and \<open>generate_images\<close> returns no entries.
\<close>

theorem generate_images_pollinations_counterexample:
  "\<not> encodable [56553] \<and>
   generate_images (\<lambda>k r. Inl (str ''unreachable'')) (\<lambda>k. 41 + k)
     \<lparr>api_type = str ''pollinations'', api_key = Some (str '''')\<rparr>
     [str ''ok'', [56553]] 1 \<lparr>posts = [], draws = 0\<rparr> =
     (Inl UnicodeEncodeError, \<lparr>posts = [], draws = 2\<rparr>)"
proof -
  have ok: "quote (str ''ok'') = Inr (str ''ok'')"
    by (simp add: quote_def utf8_char_def quote_byte_def always_safe_def str_def)
  have bad: "quote [56553] = Inl UnicodeEncodeError"
    by (simp add: quote_def utf8_char_def)
  have "\<not> encodable [56553]"
    by (simp add: encodable_def)
  moreover have "generate_images (\<lambda>k r. Inl (str ''unreachable'')) (\<lambda>k. 41 + k)
     \<lparr>api_type = str ''pollinations'', api_key = Some (str '''')\<rparr>
     [str ''ok'', [56553]] 1 \<lparr>posts = [], draws = 0\<rparr> =
     (Inl UnicodeEncodeError, \<lparr>posts = [], draws = 2\<rparr>)"
    by (simp add: generate_images_pollinations generate_pollinations_def randint_def ok bad)
  ultimately show ?thesis
    by (intro conjI)
qed

end
